theory Spec2Isabelle
  imports Complex_Main
begin

section \<open>Vehicle detection: heatmaps, history and region extraction of \<open>find_cars.py\<close>\<close>

text \<open>
  The development follows \<open>src/find_cars.py\<close>. Python floats are read as real numbers
  and Python integers as \<open>int\<close> (counts and array indices as \<open>nat\<close>). A two-dimensional
  numpy array is a shape together with its cell function, row index first, as in
  \<open>a[y, x]\<close>; only the cells inside the shape are meaningful.
\<close>

subsection \<open>Data\<close>

type_synonym point = "int \<times> int"

text \<open>\<open>Rectangle = Tuple[Tuple[int, int], Tuple[int, int]]\<close>: a pair of (x, y) vertices.\<close>

type_synonym Rectangle = "point \<times> point"

datatype py_error = ZeroDivisionError | ValueError | IndexError

record 'a ndarray =
  nrows :: nat
  ncols :: nat
  cell :: "nat \<Rightarrow> nat \<Rightarrow> 'a"

text \<open>\<open>np.zeros(shape)\<close>.\<close>

definition np_zeros :: "nat \<times> nat \<Rightarrow> real ndarray" where
  "np_zeros shp = \<lparr>nrows = fst shp, ncols = snd shp, cell = (\<lambda>y x. 0)\<rparr>"

text \<open>
  A bound \<open>i\<close> of a numpy slice over an axis of length \<open>n\<close>: a negative bound counts
  from the end, and the result is clipped to \<open>0 .. n\<close>.
\<close>

definition slice_bound :: "nat \<Rightarrow> int \<Rightarrow> nat" where
  "slice_bound n i = (if i < 0 then nat (max 0 (int n + i)) else min n (nat i))"

subsection \<open>\<open>gen_heatmap\<close>\<close>

text \<open>
  \<open>heatmap[rec[0][1]:rec[1][1], rec[0][0]:rec[1][0]] += score\<close>: the rows are sliced by
  the y coordinates of the two vertices and the columns by their x coordinates.
\<close>

definition add_region :: "real ndarray \<Rightarrow> Rectangle \<Rightarrow> real \<Rightarrow> real ndarray" where
  "add_region heatmap rect score =
     (let y_lo = slice_bound (nrows heatmap) (snd (fst rect));
          y_hi = slice_bound (nrows heatmap) (snd (snd rect));
          x_lo = slice_bound (ncols heatmap) (fst (fst rect));
          x_hi = slice_bound (ncols heatmap) (fst (snd rect))
      in heatmap\<lparr>cell := (\<lambda>y x. if y_lo \<le> y \<and> y < y_hi \<and> x_lo \<le> x \<and> x < x_hi
                                  then cell heatmap y x + score else cell heatmap y x)\<rparr>)"

text \<open>The loop \<open>for rec, score in zip(rectangles, rectangle_heat)\<close>.\<close>

fun gen_heatmap_loop :: "(Rectangle \<times> real) list \<Rightarrow> real ndarray \<Rightarrow> real ndarray" where
  "gen_heatmap_loop [] heatmap = heatmap"
| "gen_heatmap_loop ((rect, score) # rest) heatmap =
     gen_heatmap_loop rest (add_region heatmap rect score)"

definition gen_heatmap :: "Rectangle list \<Rightarrow> real list \<Rightarrow> nat \<times> nat \<Rightarrow> real ndarray" where
  "gen_heatmap rectangles rectangle_heat img_shape =
     gen_heatmap_loop (zip rectangles rectangle_heat) (np_zeros img_shape)"

text \<open>
  A rectangle covers the cell in column \<open>x\<close> and row \<open>y\<close> when the cell lies between its
  vertices, the first vertex included and the second excluded.
\<close>

definition covers :: "Rectangle \<Rightarrow> nat \<Rightarrow> nat \<Rightarrow> bool" where
  "covers rect x y =
     (fst (fst rect) \<le> int x \<and> int x < fst (snd rect) \<and>
      snd (fst rect) \<le> int y \<and> int y < snd (snd rect))"

text \<open>Pixel coordinates are not negative.\<close>

definition pixel_rect :: "Rectangle \<Rightarrow> bool" where
  "pixel_rect rect =
     (0 \<le> fst (fst rect) \<and> 0 \<le> snd (fst rect) \<and> 0 \<le> fst (snd rect) \<and> 0 \<le> snd (snd rect))"

text \<open>What the slices of \<open>add_region\<close> select in an array of the given shape.\<close>

definition in_slices :: "nat \<Rightarrow> nat \<Rightarrow> Rectangle \<Rightarrow> nat \<Rightarrow> nat \<Rightarrow> bool" where
  "in_slices h w rect x y =
     (slice_bound h (snd (fst rect)) \<le> y \<and> y < slice_bound h (snd (snd rect)) \<and>
      slice_bound w (fst (fst rect)) \<le> x \<and> x < slice_bound w (fst (snd rect)))"

subsection \<open>Capping, thresholding and summing heatmaps\<close>

text \<open>\<open>current_heatmap[current_heatmap > self.max_frame_heat] = self.max_frame_heat\<close>.\<close>

definition cap_heat :: "real \<Rightarrow> real ndarray \<Rightarrow> real ndarray" where
  "cap_heat max_heat hm =
     hm\<lparr>cell := (\<lambda>y x. if cell hm y x > max_heat then max_heat else cell hm y x)\<rparr>"

text \<open>
  \<open>target[source < low] = 0\<close> and \<open>target[source > high] = high\<close>, where \<open>target\<close> is a
  copy of \<open>source\<close> (lines 133-134 and 145-146).
\<close>

definition zero_below :: "real ndarray \<Rightarrow> real \<Rightarrow> real ndarray \<Rightarrow> real ndarray" where
  "zero_below source low target =
     target\<lparr>cell := (\<lambda>y x. if cell source y x < low then 0 else cell target y x)\<rparr>"

definition limit_above :: "real ndarray \<Rightarrow> real \<Rightarrow> real ndarray \<Rightarrow> real ndarray" where
  "limit_above source high target =
     target\<lparr>cell := (\<lambda>y x. if cell source y x > high then high else cell target y x)\<rparr>"

text \<open>
  \<open>a + b\<close> on arrays, with numpy's broadcasting: the lengths of an axis must agree or
  one of them must be 1, otherwise the addition raises \<open>ValueError\<close>.
\<close>

definition broadcast_dim :: "nat \<Rightarrow> nat \<Rightarrow> nat option" where
  "broadcast_dim a b =
     (if a = b then Some a else if a = 1 then Some b else if b = 1 then Some a else None)"

definition np_add :: "real ndarray \<Rightarrow> real ndarray \<Rightarrow> py_error + real ndarray" where
  "np_add a b =
     (case broadcast_dim (nrows a) (nrows b) of
        None \<Rightarrow> Inl ValueError
      | Some h \<Rightarrow>
          (case broadcast_dim (ncols a) (ncols b) of
             None \<Rightarrow> Inl ValueError
           | Some w \<Rightarrow>
               Inr \<lparr>nrows = h, ncols = w,
                    cell = (\<lambda>y x. cell a (if nrows a = 1 then 0 else y) (if ncols a = 1 then 0 else x)
                                 + cell b (if nrows b = 1 then 0 else y) (if ncols b = 1 then 0 else x))\<rparr>))"

text \<open>
  Python's \<open>sum\<close> starts from the integer 0 and adds the elements from left to right.
  The scalar 0 broadcasts against every array, as a 1 by 1 array does, and is
  represented so.
\<close>

definition py_zero :: "real ndarray" where
  "py_zero = \<lparr>nrows = 1, ncols = 1, cell = (\<lambda>y x. 0)\<rparr>"

fun sum_loop :: "real ndarray \<Rightarrow> real ndarray list \<Rightarrow> py_error + real ndarray" where
  "sum_loop acc [] = Inr acc"
| "sum_loop acc (a # rest) =
     (case np_add acc a of Inl e \<Rightarrow> Inl e | Inr acc' \<Rightarrow> sum_loop acc' rest)"

definition py_sum :: "real ndarray list \<Rightarrow> py_error + real ndarray" where
  "py_sum arrays = sum_loop py_zero arrays"

text \<open>\<open>xs[i:]\<close> on a Python list.\<close>

definition slice_from :: "'a list \<Rightarrow> int \<Rightarrow> 'a list" where
  "slice_from xs i = drop (slice_bound (length xs) i) xs"

subsection \<open>\<open>hot_label_regions\<close>\<close>

text \<open>
  \<open>(labels[0] == label_id).nonzero()\<close>: the positions (row, column) of the cells that
  carry the label, in row-major order.
\<close>

definition pixel_locs :: "int ndarray \<Rightarrow> int \<Rightarrow> (nat \<times> nat) list" where
  "pixel_locs lab label_id =
     concat (map (\<lambda>y. map (\<lambda>x. (y, x)) (filter (\<lambda>x. cell lab y x = label_id) [0..<ncols lab]))
                 [0..<nrows lab])"

text \<open>
  The bounding box of a label. \<open>np.min\<close> and \<open>np.max\<close> raise \<open>ValueError\<close> on an empty
  array.
\<close>

definition label_bbox :: "int ndarray \<Rightarrow> int \<Rightarrow> py_error + Rectangle" where
  "label_bbox lab label_id =
     (let locs = pixel_locs lab label_id;
          pixels_y = map fst locs;
          pixels_x = map snd locs
      in if locs = [] then Inl ValueError
         else Inr ((int (Min (set pixels_x)), int (Min (set pixels_y))),
                   (int (Max (set pixels_x)), int (Max (set pixels_y)))))"

text \<open>
  \<open>heatmap[(bbox[0][1] + bbox[1][1]) // 2, (bbox[0][0] + bbox[1][0]) // 2]\<close>. The
  coordinates of a bounding box are not negative; an index beyond the shape raises
  \<open>IndexError\<close>.
\<close>

definition center_row :: "Rectangle \<Rightarrow> nat" where
  "center_row bbox = nat ((snd (fst bbox) + snd (snd bbox)) div 2)"

definition center_col :: "Rectangle \<Rightarrow> nat" where
  "center_col bbox = nat ((fst (fst bbox) + fst (snd bbox)) div 2)"

definition center_heat :: "real ndarray \<Rightarrow> Rectangle \<Rightarrow> py_error + real" where
  "center_heat hm bbox =
     (if center_row bbox < nrows hm \<and> center_col bbox < ncols hm
      then Inr (cell hm (center_row bbox) (center_col bbox)) else Inl IndexError)"

text \<open>The loop \<open>for label_id in range(1, labels[1] + 1)\<close>, with the list \<open>bboxes\<close>.\<close>

fun hot_loop ::
  "int ndarray \<Rightarrow> real ndarray \<Rightarrow> real \<Rightarrow> int list \<Rightarrow> Rectangle list \<Rightarrow> py_error + Rectangle list"
where
  "hot_loop lab hm threshold [] acc = Inr acc"
| "hot_loop lab hm threshold (label_id # ids) acc =
     (case label_bbox lab label_id of
        Inl e \<Rightarrow> Inl e
      | Inr bbox \<Rightarrow>
          (case center_heat hm bbox of
             Inl e \<Rightarrow> Inl e
           | Inr v \<Rightarrow> hot_loop lab hm threshold ids (if v \<ge> threshold then acc @ [bbox] else acc)))"

definition hot_label_regions ::
  "int ndarray \<times> int \<Rightarrow> real ndarray \<Rightarrow> real \<Rightarrow> py_error + Rectangle list"
where
  "hot_label_regions labelled hm threshold =
     hot_loop (fst labelled) hm threshold [1..snd labelled] []"

subsection \<open>Arrays in memory\<close>

text \<open>
  Images and heatmaps are mutable arrays that the code shares by reference, so they
  live in a store and are named by their addresses. A new array gets the next free
  address; \<open>np.copy\<close> makes a new array with the contents of the old one; an assignment
  through a mask and \<open>cv2.rectangle\<close> change an array where it is.
\<close>

type_synonym addr = nat

record 'img store =
  images :: "'img list"
  heats :: "real ndarray list"

definition new_image :: "'img store \<Rightarrow> 'img \<Rightarrow> 'img store \<times> addr" where
  "new_image st v = (st\<lparr>images := images st @ [v]\<rparr>, length (images st))"

definition new_heat :: "'img store \<Rightarrow> real ndarray \<Rightarrow> 'img store \<times> addr" where
  "new_heat st v = (st\<lparr>heats := heats st @ [v]\<rparr>, length (heats st))"

definition set_image :: "'img store \<Rightarrow> addr \<Rightarrow> 'img \<Rightarrow> 'img store" where
  "set_image st a v = st\<lparr>images := (images st)[a := v]\<rparr>"

definition set_heat :: "'img store \<Rightarrow> addr \<Rightarrow> real ndarray \<Rightarrow> 'img store" where
  "set_heat st a v = st\<lparr>heats := (heats st)[a := v]\<rparr>"

definition np_copy_image :: "'img store \<Rightarrow> addr \<Rightarrow> 'img store \<times> addr" where
  "np_copy_image st a = new_image st (images st ! a)"

definition np_copy_heat :: "'img store \<Rightarrow> addr \<Rightarrow> 'img store \<times> addr" where
  "np_copy_heat st a = new_heat st (heats st ! a)"

subsection \<open>Collaborators\<close>

text \<open>
  The operations of numpy, OpenCV and scipy on images, HOG tensors and heatmaps that
  the code calls. They are parameters of the model and are taken as total functions
  of the contents of their arguments: \<open>img.shape[:2]\<close>, \<open>img[y0:y1, x0:x1, :]\<close>,
  \<open>cv2.resize\<close>, \<open>hog_channels[0].shape\<close>, \<open>hog_channels[:, y0:y1, x0:x1].ravel()\<close>,
  \<open>scipy.ndimage.measurements.label\<close>, the pixels \<open>cv2.rectangle\<close> leaves in an image,
  the heatmap \<open>cv2.normalize\<close> leaves in its argument, and the blend of lines 148-150
  (\<open>astype\<close>, \<open>cv2.merge\<close>, \<open>cv2.addWeighted\<close>).
\<close>

record ('img, 'hog, 'hw) library =
  img_shape :: "'img \<Rightarrow> nat \<times> nat"
  np_crop :: "'img \<Rightarrow> int \<times> int \<Rightarrow> int \<times> int \<Rightarrow> 'img"
  cv2_resize :: "'img \<Rightarrow> int \<times> int \<Rightarrow> 'img"
  hog_shape :: "'hog \<Rightarrow> int \<times> int"
  hog_window :: "'hog \<Rightarrow> int \<times> int \<Rightarrow> int \<times> int \<Rightarrow> 'hw"
  label :: "real ndarray \<Rightarrow> int ndarray \<times> int"
  cv2_rectangle :: "'img \<Rightarrow> point \<Rightarrow> point \<Rightarrow> nat \<times> nat \<times> nat \<Rightarrow> nat \<Rightarrow> 'img"
  cv2_normalize :: "real ndarray \<Rightarrow> real ndarray"
  heat_blend :: "'img \<Rightarrow> real ndarray \<Rightarrow> 'img"

text \<open>
  \<open>CarFeatureVectorBuilder\<close> comes from the module \<open>feature_extraction\<close>; the model
  takes what \<open>find_cars.py\<close> reads of it: \<open>input_img_shape\<close>, the two entries of
  \<open>hog_params\<close>, \<open>hog_features\<close> and \<open>get_features\<close>.
\<close>

record ('img, 'hog, 'hw, 'x) CarFeatureVectorBuilder =
  input_img_shape :: "int \<times> int"
  pixels_per_cell_edge :: int
  cells_per_block_edge :: int
  hog_features :: "'img \<Rightarrow> 'hog"
  get_features :: "('img \<times> 'hw) list \<Rightarrow> 'x"

subsection \<open>\<open>CarFinder\<close>\<close>

text \<open>
  The attributes of a \<open>CarFinder\<close>. \<open>clf\<close> stands for the classifier's
  \<open>decision_function\<close>; \<open>nlast_heatmaps\<close> holds the addresses of the heatmaps kept.
\<close>

record ('img, 'hog, 'hw, 'x) CarFinder =
  search_settings :: "(int \<times> int \<times> real \<times> real) list"
  x_range :: "int \<times> int"
  max_frame_heat :: real
  thresh_low :: real
  thresh_high :: real
  heatmap_history :: int
  nlast_heatmaps :: "addr list"
  clf :: "'x \<Rightarrow> real list"
  fvb :: "('img, 'hog, 'hw, 'x) CarFeatureVectorBuilder"
  viz :: string

text \<open>
  \<open>CarFinder.__init__\<close>. Its body is a sequence of assignments and has no \<open>raise\<close>,
  so the constructor returns a finder for every argument.
\<close>

definition CarFinder_init ::
  "('x \<Rightarrow> real list) \<Rightarrow> ('img, 'hog, 'hw, 'x) CarFeatureVectorBuilder \<Rightarrow> string \<Rightarrow> int \<Rightarrow> real \<Rightarrow> real
     \<Rightarrow> py_error + ('img, 'hog, 'hw, 'x) CarFinder"
where
  "CarFinder_init classifier car_feature_vector_builder visualization history low high =
     Inr \<lparr>search_settings = [(380, 500, 1, 6 / 8), (380, 550, 13 / 10, 5 / 8), (380, 600, 22 / 10, 6 / 8)],
          x_range = (0, 1280),
          max_frame_heat = high * (15 / 10),
          thresh_low = low,
          thresh_high = high,
          heatmap_history = history,
          nlast_heatmaps = [],
          clf = classifier,
          fvb = car_feature_vector_builder,
          viz = visualization\<rparr>"

text \<open>The defaults \<open>history=16, thresh_low=0.1, thresh_high=0.25\<close>.\<close>

definition CarFinder_default ::
  "('x \<Rightarrow> real list) \<Rightarrow> ('img, 'hog, 'hw, 'x) CarFeatureVectorBuilder \<Rightarrow> string
     \<Rightarrow> py_error + ('img, 'hog, 'hw, 'x) CarFinder"
where
  "CarFinder_default classifier car_feature_vector_builder visualization =
     CarFinder_init classifier car_feature_vector_builder visualization 16 (1 / 10) (1 / 4)"

subsection \<open>\<open>window_search_cars\<close>\<close>

text \<open>\<open>int(v)\<close> on a float truncates towards zero; \<open>range(n)\<close> is empty for \<open>n \<le> 0\<close>.\<close>

definition py_int :: "real \<Rightarrow> int" where
  "py_int v = (if 0 \<le> v then \<lfloor>v\<rfloor> else \<lceil>v\<rceil>)"

definition py_range :: "int \<Rightarrow> int list" where
  "py_range n = [0..n - 1]"

text \<open>
  \<open>cells_per_window_step = int((1 - window_overlap) * cells_per_window_edge)\<close>
  (line 195).
\<close>

definition cells_per_window_step :: "real \<Rightarrow> int \<Rightarrow> int" where
  "cells_per_window_step window_overlap cells_per_window_edge =
     py_int ((1 - window_overlap) * real_of_int cells_per_window_edge)"

text \<open>
  The body of the two nested loops (lines 198-215) for one pair of block steps: the
  window's rectangle in the frame, its image patch and its slice of the HOG tensor.
\<close>

definition window_at ::
  "('img, 'hog, 'hw) library \<Rightarrow> ('img, 'hog, 'hw, 'x) CarFeatureVectorBuilder \<Rightarrow> 'img \<Rightarrow> 'hog
     \<Rightarrow> int \<times> int \<Rightarrow> int \<times> int \<Rightarrow> real \<Rightarrow> int \<Rightarrow> int \<Rightarrow> int \<Rightarrow> int
     \<Rightarrow> Rectangle \<times> 'img \<times> 'hw"
where
  "window_at lib builder img hog_channels xr yr window_scale blocks_per_window_edge step
             x_block_step y_block_step =
     (let window_size = fst (input_img_shape builder);
          xb_begin = x_block_step * step;
          yb_begin = y_block_step * step;
          xb_end = xb_begin + blocks_per_window_edge;
          yb_end = yb_begin + blocks_per_window_edge;
          x_px_begin = xb_begin * pixels_per_cell_edge builder;
          y_px_begin = yb_begin * pixels_per_cell_edge builder;
          x_px_end = x_px_begin + window_size;
          y_px_end = y_px_begin + window_size;
          x_rec_left = py_int (real_of_int x_px_begin * window_scale) + fst xr;
          y_rec_top = py_int (real_of_int y_px_begin * window_scale) + fst yr;
          draw_size = py_int (real_of_int window_size * window_scale)
      in (((x_rec_left, y_rec_top), (x_rec_left + draw_size, y_rec_top + draw_size)),
          cv2_resize lib (np_crop lib img (y_px_begin, y_px_end) (x_px_begin, x_px_end))
                     (input_img_shape builder),
          hog_window lib hog_channels (yb_begin, yb_end) (xb_begin, xb_end)))"

text \<open>
  The selection loop \<open>for i, score in enumerate(classification_scores)\<close> with
  \<open>min_score = 0\<close>; \<open>window_positions[i]\<close> raises \<open>IndexError\<close> beyond the list.
\<close>

fun select_loop ::
  "Rectangle list \<Rightarrow> nat \<Rightarrow> real list \<Rightarrow> Rectangle list \<times> real list
     \<Rightarrow> py_error + (Rectangle list \<times> real list)"
where
  "select_loop window_positions i [] acc = Inr acc"
| "select_loop window_positions i (score # rest) (desired_windows, desired_windows_mag) =
     (if score > 0
      then (if i < length window_positions
            then select_loop window_positions (Suc i) rest
                   (desired_windows @ [window_positions ! i], desired_windows_mag @ [score])
            else Inl IndexError)
      else select_loop window_positions (Suc i) rest (desired_windows, desired_windows_mag))"

text \<open>
  \<open>window_search_cars\<close>. The frame is copied before it is sliced. A division by a
  zero scale, a zero cell size or a zero step raises \<open>ZeroDivisionError\<close>.
\<close>

definition window_search_cars ::
  "('img, 'hog, 'hw) library \<Rightarrow> ('img, 'hog, 'hw, 'x) CarFinder \<Rightarrow> 'img store \<Rightarrow> addr
     \<Rightarrow> int \<times> int \<Rightarrow> int \<times> int \<Rightarrow> real \<Rightarrow> real
     \<Rightarrow> py_error + ('img store \<times> Rectangle list \<times> real list)"
where
  "window_search_cars lib self st img xr yr window_scale window_overlap =
     (let (st1, copy) = np_copy_image st img;
          cropped = np_crop lib (images st1 ! copy) yr xr;
          (img_h, img_w) = img_shape lib cropped
      in if window_scale \<noteq> 1 \<and> window_scale = 0 then Inl ZeroDivisionError
         else
           let searched = (if window_scale \<noteq> 1
                           then cv2_resize lib cropped
                                  (py_int (real img_w / window_scale), py_int (real img_h / window_scale))
                           else cropped);
               hog_channels = hog_features (fvb self) searched;
               (nblocks_y, nblocks_x) = hog_shape lib hog_channels;
               window_size = fst (input_img_shape (fvb self))
           in if pixels_per_cell_edge (fvb self) = 0 then Inl ZeroDivisionError
              else
                let cells_per_window_edge = window_size div pixels_per_cell_edge (fvb self);
                    blocks_per_window_edge =
                      cells_per_window_edge - cells_per_block_edge (fvb self) + 1;
                    step = cells_per_window_step window_overlap cells_per_window_edge
                in if step = 0 then Inl ZeroDivisionError
                   else
                     let found =
                           concat (map (\<lambda>x_block_step.
                                     map (\<lambda>y_block_step.
                                            window_at lib (fvb self) searched hog_channels xr yr
                                              window_scale blocks_per_window_edge step
                                              x_block_step y_block_step)
                                         (py_range ((nblocks_y - blocks_per_window_edge) div step)))
                                   (py_range ((nblocks_x - blocks_per_window_edge) div step)));
                         window_positions = map fst found;
                         features = get_features (fvb self) (map snd found);
                         classification_scores = clf self features
                     in (case select_loop window_positions 0 classification_scores ([], []) of
                           Inl e \<Rightarrow> Inl e
                         | Inr (desired_windows, desired_windows_mag) \<Rightarrow>
                             Inr (st1, desired_windows, desired_windows_mag)))"

subsection \<open>\<open>find_cars\<close>\<close>

text \<open>
  Lines 111-115: the search over the settings, which appends the windows and the
  scores of every setting.
\<close>

fun search_all ::
  "('img, 'hog, 'hw) library \<Rightarrow> ('img, 'hog, 'hw, 'x) CarFinder \<Rightarrow> 'img store \<Rightarrow> addr
     \<Rightarrow> (int \<times> int \<times> real \<times> real) list \<Rightarrow> Rectangle list \<times> real list
     \<Rightarrow> py_error + ('img store \<times> Rectangle list \<times> real list)"
where
  "search_all lib self st img [] (ws, scores) = Inr (st, ws, scores)"
| "search_all lib self st img ((ystart, ystop, scale, overlap) # rest) (ws, scores) =
     (case window_search_cars lib self st img (x_range self) (ystart, ystop) scale overlap of
        Inl e \<Rightarrow> Inl e
      | Inr (st', w, s) \<Rightarrow> search_all lib self st' img rest (ws @ w, scores @ s))"

text \<open>Lines 118-119: the heatmap of the frame, capped where it is.\<close>

definition make_heatmap ::
  "('img, 'hog, 'hw) library \<Rightarrow> ('img, 'hog, 'hw, 'x) CarFinder \<Rightarrow> 'img store \<Rightarrow> addr
     \<Rightarrow> Rectangle list \<Rightarrow> real list \<Rightarrow> 'img store \<times> addr"
where
  "make_heatmap lib self st img ws scores =
     (let (st1, current_heatmap) =
            new_heat st (gen_heatmap ws scores (img_shape lib (images st ! img)))
      in (set_heat st1 current_heatmap
            (cap_heat (max_frame_heat self) (heats st1 ! current_heatmap)),
          current_heatmap))"

text \<open>
  Lines 124-126: the heatmap is appended to the history, which is cut to its last
  \<open>heatmap_history\<close> entries when it is longer than that.
\<close>

definition add_to_history ::
  "('img, 'hog, 'hw, 'x) CarFinder \<Rightarrow> addr \<Rightarrow> ('img, 'hog, 'hw, 'x) CarFinder"
where
  "add_to_history self current_heatmap =
     (let appended = nlast_heatmaps self @ [current_heatmap]
      in if int (length appended) > heatmap_history self
         then self\<lparr>nlast_heatmaps := slice_from appended (- heatmap_history self)\<rparr>
         else self\<lparr>nlast_heatmaps := appended\<rparr>)"

text \<open>
  Lines 120-128. With \<open>single\<close> the fused heatmap is the frame's heatmap itself and the
  finder is left as it is; otherwise it is a new array, the sum of the history.
\<close>

definition integrate ::
  "('img, 'hog, 'hw, 'x) CarFinder \<Rightarrow> 'img store \<Rightarrow> addr \<Rightarrow> bool
     \<Rightarrow> py_error + ('img store \<times> ('img, 'hog, 'hw, 'x) CarFinder \<times> addr)"
where
  "integrate self st current_heatmap single =
     (if single then Inr (st, self, current_heatmap)
      else
        let self1 = add_to_history self current_heatmap
        in (case py_sum (map (\<lambda>a. heats st ! a) (nlast_heatmaps self1)) of
              Inl e \<Rightarrow> Inl e
            | Inr summed \<Rightarrow> (let (st1, fused) = new_heat st summed in Inr (st1, self1, fused))))"

text \<open>Lines 131-132.\<close>

definition heat_thresh_low :: "('img, 'hog, 'hw, 'x) CarFinder \<Rightarrow> real" where
  "heat_thresh_low self = real (length (nlast_heatmaps self)) * thresh_low self"

definition heat_thresh_high :: "('img, 'hog, 'hw, 'x) CarFinder \<Rightarrow> real" where
  "heat_thresh_high self = real (length (nlast_heatmaps self)) * thresh_high self"

text \<open>
  Lines 133-138: the thresholded copy of the fused heatmap, its labels, and the
  regions that are hot enough at their centre. \<open>hot_label_regions\<close> is called with the
  thresholded copy.
\<close>

definition extract_regions ::
  "('img, 'hog, 'hw) library \<Rightarrow> ('img, 'hog, 'hw, 'x) CarFinder \<Rightarrow> 'img store \<Rightarrow> addr
     \<Rightarrow> py_error + ('img store \<times> addr \<times> (int ndarray \<times> int) \<times> Rectangle list)"
where
  "extract_regions lib self st fused =
     (let (st1, heatmap_thresh) = np_copy_heat st fused;
          st2 = set_heat st1 heatmap_thresh
                  (zero_below (heats st1 ! fused) (heat_thresh_low self) (heats st1 ! heatmap_thresh));
          labelled = label lib (heats st2 ! heatmap_thresh)
      in (case hot_label_regions labelled (heats st2 ! heatmap_thresh) (heat_thresh_high self) of
            Inl e \<Rightarrow> Inl e
          | Inr bboxes \<Rightarrow> Inr (st2, heatmap_thresh, labelled, bboxes)))"

text \<open>The loops that draw rectangles into the array at an address.\<close>

fun draw_loop ::
  "('img, 'hog, 'hw) library \<Rightarrow> 'img store \<Rightarrow> addr \<Rightarrow> Rectangle list \<Rightarrow> nat \<times> nat \<times> nat \<Rightarrow> nat
     \<Rightarrow> 'img store"
where
  "draw_loop lib st a [] color thick = st"
| "draw_loop lib st a (bbox # rest) color thick =
     draw_loop lib
       (set_image st a (cv2_rectangle lib (images st ! a) (fst bbox) (snd bbox) color thick))
       a rest color thick"

text \<open>\<open>draw_rectangles\<close> (lines 28-33) draws on a copy of the given image.\<close>

definition draw_rectangles ::
  "('img, 'hog, 'hw) library \<Rightarrow> 'img store \<Rightarrow> addr \<Rightarrow> Rectangle list \<Rightarrow> nat \<times> nat \<times> nat \<Rightarrow> nat
     \<Rightarrow> 'img store \<times> addr"
where
  "draw_rectangles lib st img rectangles color thick =
     (let (st1, imcopy) = np_copy_image st img
      in (draw_loop lib st1 imcopy rectangles color thick, imcopy))"

text \<open>Lines 141-153: the returned image.\<close>

definition visualize ::
  "('img, 'hog, 'hw) library \<Rightarrow> ('img, 'hog, 'hw, 'x) CarFinder \<Rightarrow> 'img store \<Rightarrow> addr \<Rightarrow> addr
     \<Rightarrow> Rectangle list \<Rightarrow> Rectangle list \<Rightarrow> 'img store \<times> addr"
where
  "visualize lib self st img fused bboxes ws =
     (let (st1, ret_img) = np_copy_image st img;
          st2 = draw_loop lib st1 ret_img bboxes (0, 255, 0) 6
      in if viz self = ''windows''
         then
           let (st3, heatmap_limtd) = np_copy_heat st2 fused;
               st4 = set_heat st3 heatmap_limtd
                       (limit_above (heats st3 ! fused) (heat_thresh_high self)
                          (heats st3 ! heatmap_limtd));
               st5 = set_heat st4 heatmap_limtd (cv2_normalize lib (heats st4 ! heatmap_limtd));
               (st6, heatmap_overlay) =
                 new_image st5 (heat_blend lib (images st5 ! ret_img) (heats st5 ! heatmap_limtd))
           in draw_rectangles lib st6 heatmap_overlay ws (0, 0, 180) 1
         else (st2, ret_img))"

text \<open>
  \<open>find_cars\<close> returns the visualisation and changes the finder. The values of its
  local variables at the return are kept in a record, so that statements about them
  can be made. \<open>find_cars_detect\<close> is the function up to line 138, where the bounding
  boxes are known; \<open>find_cars_frame\<close> adds the visualisation of lines 140-153.
\<close>

record ('img, 'hog, 'hw, 'x) frame =
  f_store :: "'img store"
  f_self :: "('img, 'hog, 'hw, 'x) CarFinder"
  f_windows :: "Rectangle list"
  f_window_scores :: "real list"
  f_current_heatmap :: addr
  f_heatmap :: addr
  f_heat_thresh_low :: real
  f_heat_thresh_high :: real
  f_heatmap_thresh :: addr
  f_labels :: "int ndarray \<times> int"
  f_bboxes :: "Rectangle list"
  f_ret_img :: addr

definition find_cars_detect ::
  "('img, 'hog, 'hw) library \<Rightarrow> ('img, 'hog, 'hw, 'x) CarFinder \<Rightarrow> 'img store \<Rightarrow> addr \<Rightarrow> bool
     \<Rightarrow> py_error + ('img store \<times> ('img, 'hog, 'hw, 'x) CarFinder \<times> (Rectangle list \<times> real list)
                    \<times> (addr \<times> addr \<times> addr) \<times> (int ndarray \<times> int) \<times> Rectangle list)"
where
  "find_cars_detect lib self st img single =
     (case search_all lib self st img (search_settings self) ([], []) of
        Inl e \<Rightarrow> Inl e
      | Inr (st1, ws, scores) \<Rightarrow>
          (let (st2, current_heatmap) = make_heatmap lib self st1 img ws scores
           in (case integrate self st2 current_heatmap single of
                 Inl e \<Rightarrow> Inl e
               | Inr (st3, self1, fused) \<Rightarrow>
                   (case extract_regions lib self1 st3 fused of
                      Inl e \<Rightarrow> Inl e
                    | Inr (st4, heatmap_thresh, labelled, bboxes) \<Rightarrow>
                        Inr (st4, self1, (ws, scores), (current_heatmap, fused, heatmap_thresh),
                             labelled, bboxes)))))"

definition find_cars_frame ::
  "('img, 'hog, 'hw) library \<Rightarrow> ('img, 'hog, 'hw, 'x) CarFinder \<Rightarrow> 'img store \<Rightarrow> addr \<Rightarrow> bool
     \<Rightarrow> py_error + ('img, 'hog, 'hw, 'x) frame"
where
  "find_cars_frame lib self st img single =
     (case find_cars_detect lib self st img single of
        Inl e \<Rightarrow> Inl e
      | Inr (st4, self1, (ws, scores), (current_heatmap, fused, heatmap_thresh), labelled, bboxes) \<Rightarrow>
          (let (st5, ret_img) = visualize lib self1 st4 img fused bboxes ws
           in Inr \<lparr>f_store = st5, f_self = self1, f_windows = ws,
                   f_window_scores = scores, f_current_heatmap = current_heatmap,
                   f_heatmap = fused,
                   f_heat_thresh_low = heat_thresh_low self1,
                   f_heat_thresh_high = heat_thresh_high self1,
                   f_heatmap_thresh = heatmap_thresh, f_labels = labelled,
                   f_bboxes = bboxes, f_ret_img = ret_img\<rparr>))"

definition find_cars ::
  "('img, 'hog, 'hw) library \<Rightarrow> ('img, 'hog, 'hw, 'x) CarFinder \<Rightarrow> 'img store \<Rightarrow> addr \<Rightarrow> bool
     \<Rightarrow> py_error + ('img store \<times> ('img, 'hog, 'hw, 'x) CarFinder \<times> addr)"
where
  "find_cars lib self st img single =
     (case find_cars_frame lib self st img single of
        Inl e \<Rightarrow> Inl e
      | Inr f \<Rightarrow> Inr (f_store f, f_self f, f_ret_img f))"

text \<open>
  A run of \<open>find_cars\<close> in streaming mode over the frames at the given addresses, as
  \<open>fl_image(car_finder.find_cars)\<close> makes it: each call starts from the finder and the
  store the call before it left. The result lists the local variables of every call.
\<close>

fun find_cars_stream ::
  "('img, 'hog, 'hw) library \<Rightarrow> ('img, 'hog, 'hw, 'x) CarFinder \<Rightarrow> 'img store \<Rightarrow> addr list
     \<Rightarrow> py_error + ('img, 'hog, 'hw, 'x) frame list"
where
  "find_cars_stream lib self st [] = Inr []"
| "find_cars_stream lib self st (img # imgs) =
     (case find_cars_frame lib self st img False of
        Inl e \<Rightarrow> Inl e
      | Inr f \<Rightarrow>
          (case find_cars_stream lib (f_self f) (f_store f) imgs of
             Inl e \<Rightarrow> Inl e
           | Inr fs \<Rightarrow> Inr (f # fs)))"

subsection \<open>Stores that only grow\<close>

text \<open>
  \<open>grows st st'\<close>: every array of \<open>st\<close> is in \<open>st'\<close> at its address with its contents;
  \<open>st'\<close> may hold more arrays.
\<close>

definition grows :: "'img store \<Rightarrow> 'img store \<Rightarrow> bool" where
  "grows st st' =
     (length (images st) \<le> length (images st') \<and>
      take (length (images st)) (images st') = images st \<and>
      length (heats st) \<le> length (heats st') \<and>
      take (length (heats st)) (heats st') = heats st)"

subsection \<open>What a call detects\<close>

text \<open>
  The detection result of a call: the bounding boxes, and the heatmap history the
  call leaves, as addresses and as contents.
\<close>

definition detection ::
  "('img, 'hog, 'hw, 'x) frame \<Rightarrow> Rectangle list \<times> addr list \<times> real ndarray list" where
  "detection f =
     (f_bboxes f, nlast_heatmaps (f_self f),
      map (\<lambda>a. heats (f_store f) ! a) (nlast_heatmaps (f_self f)))"

subsection \<open>A small scene\<close>

text \<open>
  Concrete collaborators, on which the functions above can be run. An image is its
  shape and the list of the rectangles drawn on it; a HOG tensor is its shape in
  blocks, with one cell per pixel and one cell per block, so that a window of 4 by 4
  pixels is 4 by 4 blocks; the features of a window are the shape of the tensor it was
  cut from and its first block. The labelling marks every non-zero cell with the
  label 1 and reports one label, as \<open>scipy.ndimage.measurements.label\<close> does when the
  non-zero cells are connected.
\<close>

type_synonym scene_img = "(nat \<times> nat) \<times> Rectangle list"
type_synonym scene_hog = "int \<times> int"
type_synonym scene_hw = "(int \<times> int) \<times> int \<times> int"

definition scene_lib :: "(scene_img, scene_hog, scene_hw) library" where
  "scene_lib =
     \<lparr>img_shape = fst,
      np_crop = (\<lambda>im yr xr.
         ((slice_bound (fst (fst im)) (snd yr) - slice_bound (fst (fst im)) (fst yr),
           slice_bound (snd (fst im)) (snd xr) - slice_bound (snd (fst im)) (fst xr)), snd im)),
      cv2_resize = (\<lambda>im size. ((nat (snd size), nat (fst size)), snd im)),
      hog_shape = (\<lambda>hog. hog),
      hog_window = (\<lambda>hog yb xb. (hog, fst yb, fst xb)),
      label = (\<lambda>hm. (\<lparr>nrows = nrows hm, ncols = ncols hm,
                          cell = (\<lambda>y x. if cell hm y x = 0 then 0 else 1)\<rparr>, 1)),
      cv2_rectangle = (\<lambda>im p q color thick. (fst im, snd im @ [(p, q)])),
      cv2_normalize = (\<lambda>hm. hm),
      heat_blend = (\<lambda>im hm. im)\<rparr>"

definition scene_fvb :: "(scene_img, scene_hog, scene_hw, scene_hw list) CarFeatureVectorBuilder" where
  "scene_fvb =
     \<lparr>input_img_shape = (4, 4), pixels_per_cell_edge = 1, cells_per_block_edge = 1,
      hog_features = (\<lambda>im. (int (fst (fst im)), int (snd (fst im)))),
      get_features = map snd\<rparr>"

text \<open>
  The classifier is confident of three windows of the search at scale 1, which form
  an L, less confident of the window in the corner the L leaves open, and rejects
  every other window.
\<close>

definition scene_clf :: "scene_hw list \<Rightarrow> real list" where
  "scene_clf =
     map (\<lambda>(hog, yb, xb).
            if hog = (9, 9) \<and> ((yb, xb) = (0, 4) \<or> (yb, xb) = (4, 0) \<or> (yb, xb) = (4, 4)) then 1
            else if hog = (9, 9) \<and> (yb, xb) = (0, 0) then 27 / 100
            else - 1)"

text \<open>A store that holds one frame of 389 rows and 9 columns, at address 0.\<close>

definition scene_store :: "scene_img store" where
  "scene_store = \<lparr>images = [((389, 9), [])], heats = []\<rparr>"

definition scene_finder ::
  "string \<Rightarrow> int \<Rightarrow> real \<Rightarrow> real \<Rightarrow> (scene_img, scene_hog, scene_hw, scene_hw list) CarFinder" where
  "scene_finder visualization history low high =
     projr (CarFinder_init scene_clf scene_fvb visualization history low high)"

text \<open>
  What the search finds in the frame of the scene: the four windows the classifier
  accepts, with their scores; the frame's heatmap after capping at 3/8; and the
  bounding box of the windows.
\<close>

definition scene_windows :: "Rectangle list" where
  "scene_windows = [((0, 380), (4, 384)), ((0, 384), (4, 388)), ((4, 380), (8, 384)), ((4, 384), (8, 388))]"

definition scene_scores :: "real list" where
  "scene_scores = [27 / 100, 1, 1, 1]"

definition scene_heat :: "real ndarray" where
  "scene_heat = cap_heat (3 / 8) (gen_heatmap scene_windows scene_scores (389, 9))"

definition scene_bbox :: Rectangle where
  "scene_bbox = ((0, 380), (7, 387))"

section \<open>Properties\<close>

subsection \<open>The heatmap of a frame\<close>

lemma gen_heatmap_loop_nrows: "nrows (gen_heatmap_loop zs hm) = nrows hm"
  by (induction zs hm rule: gen_heatmap_loop.induct) (simp_all add: add_region_def Let_def)

lemma gen_heatmap_loop_ncols: "ncols (gen_heatmap_loop zs hm) = ncols hm"
  by (induction zs hm rule: gen_heatmap_loop.induct) (simp_all add: add_region_def Let_def)

lemma add_region_cell:
  "cell (add_region hm rect score) y x =
     cell hm y x + (if in_slices (nrows hm) (ncols hm) rect x y then score else 0)"
  by (simp add: add_region_def Let_def in_slices_def)

lemma add_region_shape:
  "nrows (add_region hm rect score) = nrows hm" "ncols (add_region hm rect score) = ncols hm"
  by (simp_all add: add_region_def Let_def)

lemma gen_heatmap_loop_cell:
  "cell (gen_heatmap_loop zs hm) y x =
     cell hm y x +
     sum_list (map snd (filter (\<lambda>(rect, score). in_slices (nrows hm) (ncols hm) rect x y) zs))"
proof (induction zs hm rule: gen_heatmap_loop.induct)
  case (1 hm)
  show ?case by simp
next
  case (2 rect score rest hm)
  show ?case
    by (simp add: "2.IH" add_region_cell add_region_shape)
qed

lemma in_slices_covers:
  "pixel_rect rect \<Longrightarrow> y < h \<Longrightarrow> x < w \<Longrightarrow> in_slices h w rect x y = covers rect x y"
  by (auto simp: in_slices_def covers_def pixel_rect_def slice_bound_def)

lemma gen_heatmap_shape:
  "nrows (gen_heatmap rs ss shp) = fst shp" "ncols (gen_heatmap rs ss shp) = snd shp"
  by (simp_all add: gen_heatmap_def gen_heatmap_loop_nrows gen_heatmap_loop_ncols np_zeros_def)

lemma gen_heatmap_cell:
  "cell (gen_heatmap rs ss shp) y x =
     sum_list (map snd (filter (\<lambda>(rect, score). in_slices (fst shp) (snd shp) rect x y) (zip rs ss)))"
  by (simp add: gen_heatmap_def gen_heatmap_loop_cell np_zeros_def)

lemma filter_cong_set: "(\<And>z. z \<in> set zs \<Longrightarrow> P z = Q z) \<Longrightarrow> filter P zs = filter Q zs"
  by (induction zs) auto

lemma gen_heatmap_cell_covers:
  assumes "list_all pixel_rect rs" and "y < fst shp" and "x < snd shp"
  shows "cell (gen_heatmap rs ss shp) y x =
     sum_list (map snd (filter (\<lambda>(rect, score). covers rect x y) (zip rs ss)))"
proof -
  have "filter (\<lambda>(rect, score). in_slices (fst shp) (snd shp) rect x y) (zip rs ss) =
        filter (\<lambda>(rect, score). covers rect x y) (zip rs ss)"
  proof (rule filter_cong_set)
    fix z assume "z \<in> set (zip rs ss)"
    then have "fst z \<in> set rs" by (metis in_set_zipE prod.collapse)
    then have "pixel_rect (fst z)" using assms(1) by (simp add: list_all_iff)
    then show "(case z of (rect, score) \<Rightarrow> in_slices (fst shp) (snd shp) rect x y) =
               (case z of (rect, score) \<Rightarrow> covers rect x y)"
      using assms(2,3) by (cases z) (simp add: in_slices_covers)
  qed
  then show ?thesis by (simp add: gen_heatmap_cell)
qed

lemma sum_list_filter_none:
  "(\<And>z. z \<in> set zs \<Longrightarrow> \<not> P z) \<Longrightarrow> sum_list (map snd (filter P zs)) = (0::real)"
  by (induction zs) auto

lemma sum_list_filter_single:
  fixes zs :: "('a \<times> real) list"
  assumes "i < length zs" and "P (zs ! i)" and "\<And>j. j < length zs \<Longrightarrow> j \<noteq> i \<Longrightarrow> \<not> P (zs ! j)"
  shows "sum_list (map snd (filter P zs)) = snd (zs ! i)"
  using assms
proof (induction zs arbitrary: i)
  case Nil
  then show ?case by simp
next
  case (Cons z zs)
  show ?case
  proof (cases i)
    case 0
    have "\<And>w. w \<in> set zs \<Longrightarrow> \<not> P w"
    proof -
      fix w assume "w \<in> set zs"
      then obtain j where "j < length zs" "zs ! j = w" by (auto simp: in_set_conv_nth)
      then show "\<not> P w" using Cons.prems(3)[of "Suc j"] 0 by auto
    qed
    then have "sum_list (map snd (filter P zs)) = 0" by (rule sum_list_filter_none)
    then show ?thesis using 0 Cons.prems(2) by simp
  next
    case (Suc k)
    have nz: "\<not> P z" using Cons.prems(3)[of 0] Suc by simp
    have "sum_list (map snd (filter P zs)) = snd (zs ! k)"
    proof (rule Cons.IH)
      show "k < length zs" using Cons.prems(1) Suc by simp
      show "P (zs ! k)" using Cons.prems(2) Suc by simp
      fix j assume "j < length zs" "j \<noteq> k"
      then show "\<not> P (zs ! j)" using Cons.prems(3)[of "Suc j"] Suc by simp
    qed
    then show ?thesis using nz Suc by simp
  qed
qed

text \<open>
  Claim C6, as amended. For rectangles whose coordinates are not negative, the raw
  heatmap value at a cell of the image is the sum of the scores of the rectangles that
  cover the cell. In particular a cell that no rectangle covers holds 0, and a cell
  that exactly one rectangle covers holds that rectangle's score, which is the case of
  rectangles that do not overlap. The restriction is needed: numpy reads a negative
  slice bound from the far edge of the array, so a rectangle with a negative
  coordinate heats other cells than the ones it covers (a
  counterexample follows the theorem).
\<close>

theorem gen_heatmap_sums_covering_scores:
  assumes "list_all pixel_rect rectangles" and "y < fst shp" and "x < snd shp"
  shows "cell (gen_heatmap rectangles rectangle_heat shp) y x =
           sum_list (map snd (filter (\<lambda>(rect, score). covers rect x y)
                                     (zip rectangles rectangle_heat)))
         \<and> ((\<forall>rect \<in> set rectangles. \<not> covers rect x y) \<longrightarrow>
              cell (gen_heatmap rectangles rectangle_heat shp) y x = 0)
         \<and> (\<forall>i. i < length rectangles \<and> i < length rectangle_heat \<and> covers (rectangles ! i) x y \<and>
                 (\<forall>j < length rectangles. j \<noteq> i \<longrightarrow> \<not> covers (rectangles ! j) x y) \<longrightarrow>
                 cell (gen_heatmap rectangles rectangle_heat shp) y x = rectangle_heat ! i)"
proof (intro conjI impI allI)
  let ?zs = "zip rectangles rectangle_heat"
  let ?P = "\<lambda>(rect, score). covers rect x y"
  show eq: "cell (gen_heatmap rectangles rectangle_heat shp) y x = sum_list (map snd (filter ?P ?zs))"
    using assms by (rule gen_heatmap_cell_covers)
  {
    assume none: "\<forall>rect \<in> set rectangles. \<not> covers rect x y"
    have "sum_list (map snd (filter ?P ?zs)) = 0"
    proof (rule sum_list_filter_none)
      fix z assume "z \<in> set ?zs"
      then have "fst z \<in> set rectangles" by (metis in_set_zipE prod.collapse)
      then show "\<not> ?P z" using none by (cases z) simp
    qed
    then show "cell (gen_heatmap rectangles rectangle_heat shp) y x = 0" using eq by simp
  }
  {
    fix i
    assume h: "i < length rectangles \<and> i < length rectangle_heat \<and> covers (rectangles ! i) x y \<and>
               (\<forall>j < length rectangles. j \<noteq> i \<longrightarrow> \<not> covers (rectangles ! j) x y)"
    have "sum_list (map snd (filter ?P ?zs)) = snd (?zs ! i)"
    proof (rule sum_list_filter_single)
      show "i < length ?zs" using h by simp
      show "?P (?zs ! i)" using h by simp
      fix j assume "j < length ?zs" "j \<noteq> i"
      then show "\<not> ?P (?zs ! j)" using h by simp
    qed
    then show "cell (gen_heatmap rectangles rectangle_heat shp) y x = rectangle_heat ! i"
      using eq h by simp
  }
qed

theorem gen_heatmap_sums_covering_scores_witness:
  "list_all pixel_rect [((0, 0), (2, 2)), ((1, 1), (3, 3)), ((3, 0), (5, 1))]
   \<and> cell (gen_heatmap [((0, 0), (2, 2)), ((1, 1), (3, 3)), ((3, 0), (5, 1))] [1 / 2, 1 / 4, 2] (3, 5)) 1 1 = 3 / 4
   \<and> cell (gen_heatmap [((0, 0), (2, 2)), ((1, 1), (3, 3)), ((3, 0), (5, 1))] [1 / 2, 1 / 4, 2] (3, 5)) 2 4 = 0
   \<and> cell (gen_heatmap [((0, 0), (2, 2)), ((1, 1), (3, 3)), ((3, 0), (5, 1))] [1 / 2, 1 / 4, 2] (3, 5)) 0 3 = 2"
proof -
  let ?R = "[((0, 0), (2, 2)), ((1, 1), (3, 3)), ((3, 0), (5, 1))] :: Rectangle list"
  let ?S = "[1 / 2, 1 / 4, 2] :: real list"
  have pix: "list_all pixel_rect ?R" by (simp add: pixel_rect_def)
  have a: "cell (gen_heatmap ?R ?S (3, 5)) 1 1 = 3 / 4"
    using gen_heatmap_sums_covering_scores[OF pix, of 1 "(3, 5)" 1 ?S]
    by (simp add: covers_def)
  have b: "cell (gen_heatmap ?R ?S (3, 5)) 2 4 = 0"
    using gen_heatmap_sums_covering_scores[OF pix, of 2 "(3, 5)" 4 ?S]
    by (simp add: covers_def)
  have c: "cell (gen_heatmap ?R ?S (3, 5)) 0 3 = 2"
    using gen_heatmap_sums_covering_scores[OF pix, of 0 "(3, 5)" 3 ?S]
    by (simp add: covers_def)
  show ?thesis using pix a b c by simp
qed

text \<open>
  The claim as it was worded, for every list of rectangles, fails: the rectangle
  \<open>((-2, -2), (5, 5))\<close> covers the cell (0, 0) of a 4 by 4 image, but
  \<open>heatmap[-2:5, -2:5]\<close> is the block of rows and columns 2 and 3, and the cell
  keeps the value 0.
\<close>

theorem gen_heatmap_negative_vertex_counterexample:
  "cell (gen_heatmap [((- 2, - 2), (5, 5))] [1] (4, 4)) 0 0 = 0
   \<and> covers ((- 2, - 2), (5, 5)) 0 0
   \<and> sum_list (map snd (filter (\<lambda>(rect, score). covers rect 0 0)
                               (zip [((- 2, - 2), (5, 5))] [1::real]))) = 1"
  by (simp add: gen_heatmap_def np_zeros_def add_region_def slice_bound_def covers_def Let_def)

text \<open>
  Claim C10, as amended. The second vertex of a rectangle is exclusive: a rectangle
  \<open>((x0, y0), (x1, y1))\<close> whose coordinates are not negative adds its score to the
  cells with \<open>x0 \<le> x < x1\<close> and \<open>y0 \<le> y < y1\<close> and to no other cell, so row \<open>y1\<close> and
  column \<open>x1\<close> get nothing from it. With a negative coordinate the slices select
  other cells (a counterexample follows the theorem).
\<close>

theorem gen_heatmap_second_vertex_exclusive:
  assumes "pixel_rect ((x0, y0), (x1, y1))" and "length before = length before_heat"
    and "y < fst shp" and "x < snd shp"
  shows "cell (gen_heatmap (before @ ((x0, y0), (x1, y1)) # after) (before_heat @ score # after_heat) shp) y x =
           cell (gen_heatmap (before @ after) (before_heat @ after_heat) shp) y x
           + (if x0 \<le> int x \<and> int x < x1 \<and> y0 \<le> int y \<and> int y < y1 then score else 0)"
proof -
  have "in_slices (fst shp) (snd shp) ((x0, y0), (x1, y1)) x y = covers ((x0, y0), (x1, y1)) x y"
    using assms(1,3,4) by (rule in_slices_covers)
  then show ?thesis
    using assms(2) by (simp add: gen_heatmap_cell covers_def)
qed

theorem gen_heatmap_second_vertex_exclusive_witness:
  "pixel_rect ((1, 1), (3, 2))
   \<and> cell (gen_heatmap [((0, 0), (4, 4)), ((1, 1), (3, 2))] [1 / 2, 1 / 4] (5, 5)) 1 2 = 3 / 4
   \<and> cell (gen_heatmap [((0, 0), (4, 4)), ((1, 1), (3, 2))] [1 / 2, 1 / 4] (5, 5)) 1 3 = 1 / 2
   \<and> cell (gen_heatmap [((0, 0), (4, 4)), ((1, 1), (3, 2))] [1 / 2, 1 / 4] (5, 5)) 2 2 = 1 / 2"
proof -
  have pix: "pixel_rect ((1, 1), (3, 2))" by (simp add: pixel_rect_def)
  have base: "\<And>y x. cell (gen_heatmap [((0, 0), (4, 4))] [1 / 2] (5, 5)) y x =
                (if y < 4 \<and> x < 4 then 1 / 2 else 0)"
    by (auto simp: gen_heatmap_def np_zeros_def add_region_def slice_bound_def Let_def)
  have a: "cell (gen_heatmap [((0, 0), (4, 4)), ((1, 1), (3, 2))] [1 / 2, 1 / 4] (5, 5)) 1 2 = 3 / 4"
    using gen_heatmap_second_vertex_exclusive[OF pix, of "[((0, 0), (4, 4))]" "[1 / 2]" 1 "(5, 5)" 2 "[]" "1 / 4" "[]"]
    by (simp add: base)
  have b: "cell (gen_heatmap [((0, 0), (4, 4)), ((1, 1), (3, 2))] [1 / 2, 1 / 4] (5, 5)) 1 3 = 1 / 2"
    using gen_heatmap_second_vertex_exclusive[OF pix, of "[((0, 0), (4, 4))]" "[1 / 2]" 1 "(5, 5)" 3 "[]" "1 / 4" "[]"]
    by (simp add: base)
  have c: "cell (gen_heatmap [((0, 0), (4, 4)), ((1, 1), (3, 2))] [1 / 2, 1 / 4] (5, 5)) 2 2 = 1 / 2"
    using gen_heatmap_second_vertex_exclusive[OF pix, of "[((0, 0), (4, 4))]" "[1 / 2]" 2 "(5, 5)" 2 "[]" "1 / 4" "[]"]
    by (simp add: base)
  show ?thesis using pix a b c by simp
qed

text \<open>
  The claim as it was worded, for every rectangle, fails: no cell lies between the
  vertices of \<open>((-3, -3), (-1, -1))\<close>, but \<open>heatmap[-3:-1, -3:-1]\<close> of a 4 by 4 image
  is the block of rows and columns 1 and 2, and the cell (1, 1) receives the score.
\<close>

theorem gen_heatmap_negative_slice_counterexample:
  "cell (gen_heatmap [((- 3, - 3), (- 1, - 1))] [1] (4, 4)) 1 1 = 1
   \<and> cell (gen_heatmap [] [] (4, 4)) 1 1 = 0
   \<and> \<not> covers ((- 3, - 3), (- 1, - 1)) 1 1"
  by (simp add: gen_heatmap_def np_zeros_def add_region_def slice_bound_def covers_def Let_def)

subsection \<open>The store\<close>

lemma grows_refl: "grows st st"
  by (simp add: grows_def)

lemma grows_trans: "grows a b \<Longrightarrow> grows b c \<Longrightarrow> grows a c"
  unfolding grows_def
  by (metis (no_types, lifting) le_trans min.absorb2 take_take min.commute)

lemma grows_image: "grows st st' \<Longrightarrow> a < length (images st) \<Longrightarrow> images st' ! a = images st ! a"
  unfolding grows_def by (metis nth_take)

lemma grows_heat: "grows st st' \<Longrightarrow> a < length (heats st) \<Longrightarrow> heats st' ! a = heats st ! a"
  unfolding grows_def by (metis nth_take)

lemma grows_heats_length: "grows st st' \<Longrightarrow> length (heats st) \<le> length (heats st')"
  by (simp add: grows_def)

lemma grows_images_length: "grows st st' \<Longrightarrow> length (images st) \<le> length (images st')"
  by (simp add: grows_def)

lemma grows_new_image: "grows st (fst (new_image st v))"
  by (simp add: grows_def new_image_def)

lemma grows_new_heat: "grows st (fst (new_heat st v))"
  by (simp add: grows_def new_heat_def)

lemma grows_set_image: "grows st st' \<Longrightarrow> length (images st) \<le> a \<Longrightarrow> grows st (set_image st' a v)"
  by (simp add: grows_def set_image_def)

lemma grows_set_heat: "grows st st' \<Longrightarrow> length (heats st) \<le> a \<Longrightarrow> grows st (set_heat st' a v)"
  by (simp add: grows_def set_heat_def)

lemma window_search_cars_store:
  "window_search_cars lib self st img xr yr sc ov = Inr (st', w, s) \<Longrightarrow>
     st' = st\<lparr>images := images st @ [images st ! img]\<rparr>"
  unfolding window_search_cars_def np_copy_image_def new_image_def
  by (auto simp: Let_def split: prod.splits if_splits sum.splits)

lemma search_all_store:
  "search_all lib self st img settings acc = Inr (st', w, s) \<Longrightarrow>
     grows st st' \<and> heats st' = heats st"
proof (induction lib self st img settings acc rule: search_all.induct)
  case (1 lib self st img ws scores)
  then show ?case by (simp add: grows_refl)
next
  case (2 lib self st img ystart ystop scale overlap rest ws scores)
  from "2.prems" obtain st1 w1 s1 where
    ws: "window_search_cars lib self st img (x_range self) (ystart, ystop) scale overlap = Inr (st1, w1, s1)"
    and rest: "search_all lib self st1 img rest (ws @ w1, scores @ s1) = Inr (st', w, s)"
    by (auto split: sum.splits)
  have st1: "st1 = st\<lparr>images := images st @ [images st ! img]\<rparr>"
    using ws by (rule window_search_cars_store)
  have g1: "grows st st1" by (simp add: st1 grows_def)
  have "grows st1 st' \<and> heats st' = heats st1"
    using "2.IH"[OF ws refl refl rest] .
  then show ?case using g1 st1 by (auto intro: grows_trans)
qed

subsection \<open>The steps of \<open>find_cars\<close> and the store\<close>

lemma make_heatmap_effect:
  assumes "make_heatmap lib self st img ws scores = (st', cur)"
  shows "cur = length (heats st)"
    and "images st' = images st"
    and "heats st' = heats st @ [cap_heat (max_frame_heat self)
                                    (gen_heatmap ws scores (img_shape lib (images st ! img)))]"
  using assms
  by (auto simp: make_heatmap_def new_heat_def set_heat_def Let_def)

lemma make_heatmap_grows:
  assumes "make_heatmap lib self st img ws scores = (st', cur)"
  shows "grows st st'"
  using make_heatmap_effect(2,3)[OF assms] by (simp add: grows_def)

lemma integrate_single:
  assumes "integrate self st cur True = Inr (st', self', fused)"
  shows "st' = st" and "self' = self" and "fused = cur"
  using assms by (simp_all add: integrate_def)

lemma integrate_stream:
  assumes "integrate self st cur False = Inr (st', self', fused)"
  shows "self' = add_to_history self cur"
    and "fused = length (heats st)"
    and "images st' = images st"
    and "\<exists>summed. py_sum (map (\<lambda>a. heats st ! a) (nlast_heatmaps (add_to_history self cur))) = Inr summed
                  \<and> heats st' = heats st @ [summed]"
  using assms
  by (auto simp: integrate_def new_heat_def Let_def split: sum.splits)

lemma integrate_grows:
  assumes "integrate self st cur single = Inr (st', self', fused)"
  shows "grows st st'"
proof (cases single)
  case True
  then show ?thesis using integrate_single(1)[of self st cur st' self' fused] assms
    by (simp add: grows_refl)
next
  case False
  then show ?thesis using integrate_stream(3,4)[of self st cur st' self' fused] assms
    by (auto simp: grows_def)
qed

lemma extract_regions_effect:
  assumes "extract_regions lib self st fused = Inr (st', thr, labelled, bboxes)"
  shows "thr = length (heats st)"
    and "images st' = images st"
    and "fused < length (heats st) \<Longrightarrow>
           heats st' = heats st @ [zero_below (heats st ! fused) (heat_thresh_low self) (heats st ! fused)]"
    and "labelled = label lib (heats st' ! thr)"
    and "hot_label_regions labelled (heats st' ! thr) (heat_thresh_high self) = Inr bboxes"
proof -
  let ?st1 = "st\<lparr>heats := heats st @ [heats st ! fused]\<rparr>"
  let ?T = "zero_below (heats ?st1 ! fused) (heat_thresh_low self) (heats ?st1 ! length (heats st))"
  let ?st2 = "set_heat ?st1 (length (heats st)) ?T"
  from assms have a: "thr = length (heats st)" "st' = ?st2" "labelled = label lib (heats ?st2 ! length (heats st))"
    "hot_label_regions labelled (heats ?st2 ! length (heats st)) (heat_thresh_high self) = Inr bboxes"
    by (auto simp: extract_regions_def np_copy_heat_def new_heat_def Let_def split: sum.splits)
  show "thr = length (heats st)" by (rule a(1))
  show "images st' = images st" by (simp add: a(2) set_heat_def)
  show "heats st' = heats st @ [zero_below (heats st ! fused) (heat_thresh_low self) (heats st ! fused)]"
    if "fused < length (heats st)"
    using that by (simp add: a(2) set_heat_def nth_append)
  show "labelled = label lib (heats st' ! thr)" using a by simp
  show "hot_label_regions labelled (heats st' ! thr) (heat_thresh_high self) = Inr bboxes" using a by simp
qed


lemma extract_regions_grows:
  assumes "extract_regions lib self st fused = Inr (st', thr, labelled, bboxes)"
  shows "grows st st'"
proof -
  from assms have "st' = set_heat (st\<lparr>heats := heats st @ [heats st ! fused]\<rparr>) (length (heats st))
      (zero_below (heats (st\<lparr>heats := heats st @ [heats st ! fused]\<rparr>) ! fused) (heat_thresh_low self)
         (heats (st\<lparr>heats := heats st @ [heats st ! fused]\<rparr>) ! length (heats st)))"
    by (auto simp: extract_regions_def np_copy_heat_def new_heat_def Let_def split: sum.splits)
  then show ?thesis by (simp add: grows_def set_heat_def)
qed

lemma draw_loop_effect:
  "heats (draw_loop lib st a bbs color thick) = heats st \<and>
   length (images (draw_loop lib st a bbs color thick)) = length (images st) \<and>
   take a (images (draw_loop lib st a bbs color thick)) = take a (images st)"
  by (induction lib st a bbs color thick rule: draw_loop.induct) (simp_all add: set_image_def)

lemma draw_loop_grows:
  assumes "grows st0 st" and "length (images st0) \<le> a"
  shows "grows st0 (draw_loop lib st a bbs color thick)"
proof -
  let ?d = "draw_loop lib st a bbs color thick"
  have e: "heats ?d = heats st" "length (images ?d) = length (images st)" "take a (images ?d) = take a (images st)"
    using draw_loop_effect[of lib st a bbs color thick] by simp_all
  have "take (length (images st0)) (images ?d) = take (length (images st0)) (take a (images ?d))"
    using assms(2) by (simp add: min_def)
  also have "\<dots> = take (length (images st0)) (images st)"
    using assms(2) by (simp add: e(3) min_def)
  finally show ?thesis using assms(1) e by (simp add: grows_def)
qed

lemma draw_rectangles_grows:
  assumes "draw_rectangles lib st img rects color thick = (st', a)"
  shows "grows st st'" and "a = length (images st)"
proof -
  from assms have a: "a = length (images st)"
    and st': "st' = draw_loop lib (st\<lparr>images := images st @ [images st ! img]\<rparr>) (length (images st)) rects color thick"
    by (auto simp: draw_rectangles_def np_copy_image_def new_image_def Let_def)
  show "a = length (images st)" by (rule a)
  have "grows st (st\<lparr>images := images st @ [images st ! img]\<rparr>)" by (simp add: grows_def)
  then show "grows st st'" unfolding st' by (rule draw_loop_grows) simp
qed

lemma visualize_grows:
  assumes "visualize lib self st img fused bboxes ws = (st', ret)"
  shows "grows st st'" and "length (images st) \<le> ret"
proof -
  let ?st1 = "st\<lparr>images := images st @ [images st ! img]\<rparr>"
  let ?r = "length (images st)"
  let ?st2 = "draw_loop lib ?st1 ?r bboxes (0, 255, 0) 6"
  have g1: "grows st ?st1" by (simp add: grows_def)
  have g2: "grows st ?st2" using g1 by (rule draw_loop_grows) simp
  have l2: "length (images ?st2) = Suc (length (images st))" "heats ?st2 = heats st"
    using draw_loop_effect[of lib ?st1 ?r bboxes "(0, 255, 0)" 6] by simp_all
  have "grows st st' \<and> length (images st) \<le> ret"
  proof (cases "viz self = ''windows''")
    case False
    then have "st' = ?st2" "ret = ?r" using assms
      by (auto simp: visualize_def np_copy_image_def new_image_def Let_def)
    then show ?thesis using g2 by simp
  next
    case True
    let ?st3 = "?st2\<lparr>heats := heats ?st2 @ [heats ?st2 ! fused]\<rparr>"
    let ?l = "length (heats ?st2)"
    let ?st4 = "set_heat ?st3 ?l (limit_above (heats ?st3 ! fused) (heat_thresh_high self) (heats ?st3 ! ?l))"
    let ?st5 = "set_heat ?st4 ?l (cv2_normalize lib (heats ?st4 ! ?l))"
    let ?st6 = "?st5\<lparr>images := images ?st5 @ [heat_blend lib (images ?st5 ! ?r) (heats ?st5 ! ?l)]\<rparr>"
    have d: "draw_rectangles lib ?st6 (length (images ?st5)) ws (0, 0, 180) 1 = (st', ret)"
      using assms True
      by (simp add: visualize_def np_copy_image_def np_copy_heat_def new_image_def new_heat_def Let_def)
    have g3: "grows st ?st3" using g2 by (simp add: grows_def)
    have le: "length (heats st) \<le> ?l" by (simp add: l2)
    have g4: "grows st ?st4" using g3 le by (rule grows_set_heat)
    have g5: "grows st ?st5" using g4 le by (rule grows_set_heat)
    have g6: "grows st ?st6" using g5 by (simp add: grows_def)
    have g7: "grows ?st6 st'" "ret = length (images ?st6)"
      using draw_rectangles_grows[OF d] by simp_all
    have "grows st st'" using g6 g7(1) by (rule grows_trans)
    moreover have "length (images st) \<le> length (images ?st6)" using g6 by (rule grows_images_length)
    ultimately show ?thesis using g7(2) by simp
  qed
  then show "grows st st'" "length (images st) \<le> ret" by simp_all
qed

lemma find_cars_frame_stages:
  assumes "find_cars_frame lib self st img single = Inr f"
  obtains st1 st2 st3 st4 where
    "search_all lib self st img (search_settings self) ([], []) = Inr (st1, f_windows f, f_window_scores f)"
    "make_heatmap lib self st1 img (f_windows f) (f_window_scores f) = (st2, f_current_heatmap f)"
    "integrate self st2 (f_current_heatmap f) single = Inr (st3, f_self f, f_heatmap f)"
    "extract_regions lib (f_self f) st3 (f_heatmap f) = Inr (st4, f_heatmap_thresh f, f_labels f, f_bboxes f)"
    "visualize lib (f_self f) st4 img (f_heatmap f) (f_bboxes f) (f_windows f) = (f_store f, f_ret_img f)"
    "f_heat_thresh_low f = heat_thresh_low (f_self f)"
    "f_heat_thresh_high f = heat_thresh_high (f_self f)"
  using assms unfolding find_cars_frame_def find_cars_detect_def
  by (auto simp: Let_def split: sum.splits prod.splits)


text \<open>What a successful call leaves behind.\<close>

lemma find_cars_frame_grows:
  assumes "find_cars_frame lib self st img single = Inr f"
  shows "grows st (f_store f)"
proof -
  from assms obtain st1 st2 st3 st4 where
    a: "search_all lib self st img (search_settings self) ([], []) = Inr (st1, f_windows f, f_window_scores f)"
    and b: "make_heatmap lib self st1 img (f_windows f) (f_window_scores f) = (st2, f_current_heatmap f)"
    and c: "integrate self st2 (f_current_heatmap f) single = Inr (st3, f_self f, f_heatmap f)"
    and d: "extract_regions lib (f_self f) st3 (f_heatmap f) = Inr (st4, f_heatmap_thresh f, f_labels f, f_bboxes f)"
    and e: "visualize lib (f_self f) st4 img (f_heatmap f) (f_bboxes f) (f_windows f) = (f_store f, f_ret_img f)"
    by (rule find_cars_frame_stages)
  have g01: "grows st st1" using search_all_store[OF a] by simp
  have g12: "grows st1 st2" using b by (rule make_heatmap_grows)
  have g23: "grows st2 st3" using c by (rule integrate_grows)
  have g34: "grows st3 st4" using d by (rule extract_regions_grows)
  have g45: "grows st4 (f_store f)" using e by (rule visualize_grows(1))
  show ?thesis
    by (rule grows_trans[OF g01 grows_trans[OF g12 grows_trans[OF g23 grows_trans[OF g34 g45]]]])
qed

lemma find_cars_frame_current:
  assumes "find_cars_frame lib self st img single = Inr f"
  shows "f_current_heatmap f = length (heats st)"
    and "f_current_heatmap f < length (heats (f_store f))"
    and "img < length (images st) \<Longrightarrow>
           heats (f_store f) ! f_current_heatmap f =
             cap_heat (max_frame_heat self)
               (gen_heatmap (f_windows f) (f_window_scores f) (img_shape lib (images st ! img)))"
proof -
  from assms obtain st1 st2 st3 st4 where
    a: "search_all lib self st img (search_settings self) ([], []) = Inr (st1, f_windows f, f_window_scores f)"
    and b: "make_heatmap lib self st1 img (f_windows f) (f_window_scores f) = (st2, f_current_heatmap f)"
    and c: "integrate self st2 (f_current_heatmap f) single = Inr (st3, f_self f, f_heatmap f)"
    and d: "extract_regions lib (f_self f) st3 (f_heatmap f) = Inr (st4, f_heatmap_thresh f, f_labels f, f_bboxes f)"
    and e: "visualize lib (f_self f) st4 img (f_heatmap f) (f_bboxes f) (f_windows f) = (f_store f, f_ret_img f)"
    by (rule find_cars_frame_stages)
  have s1: "grows st st1" "heats st1 = heats st" using search_all_store[OF a] by simp_all
  note m = make_heatmap_effect[OF b]
  show cur: "f_current_heatmap f = length (heats st)" using m(1) s1(2) by simp
  have lt2: "f_current_heatmap f < length (heats st2)" using m(1,3) by simp
  have g23: "grows st2 st3" using c by (rule integrate_grows)
  have g34: "grows st3 st4" using d by (rule extract_regions_grows)
  have g45: "grows st4 (f_store f)" using e by (rule visualize_grows(1))
  have g: "grows st2 (f_store f)"
    by (rule grows_trans[OF g23 grows_trans[OF g34 g45]])
  show "f_current_heatmap f < length (heats (f_store f))"
    using lt2 grows_heats_length[OF g] by simp
  show "heats (f_store f) ! f_current_heatmap f =
          cap_heat (max_frame_heat self)
            (gen_heatmap (f_windows f) (f_window_scores f) (img_shape lib (images st ! img)))"
    if "img < length (images st)"
  proof -
    have "images st1 ! img = images st ! img" using s1(1) that by (rule grows_image)
    then have "heats st2 ! f_current_heatmap f =
          cap_heat (max_frame_heat self)
            (gen_heatmap (f_windows f) (f_window_scores f) (img_shape lib (images st ! img)))"
      using m(1,3) by simp
    then show ?thesis using grows_heat[OF g lt2] by simp
  qed
qed

lemma find_cars_frame_self:
  assumes "find_cars_frame lib self st img single = Inr f"
  shows "f_self f = (if single then self else add_to_history self (length (heats st)))"
    and "f_heat_thresh_low f = real (length (nlast_heatmaps (f_self f))) * thresh_low (f_self f)"
    and "f_heat_thresh_high f = real (length (nlast_heatmaps (f_self f))) * thresh_high (f_self f)"
proof -
  from assms obtain st1 st2 st3 st4 where
    a: "search_all lib self st img (search_settings self) ([], []) = Inr (st1, f_windows f, f_window_scores f)"
    and b: "make_heatmap lib self st1 img (f_windows f) (f_window_scores f) = (st2, f_current_heatmap f)"
    and c: "integrate self st2 (f_current_heatmap f) single = Inr (st3, f_self f, f_heatmap f)"
    and t: "f_heat_thresh_low f = heat_thresh_low (f_self f)"
           "f_heat_thresh_high f = heat_thresh_high (f_self f)"
    by (rule find_cars_frame_stages)
  have cur: "f_current_heatmap f = length (heats st)"
    using assms by (rule find_cars_frame_current(1))
  show "f_self f = (if single then self else add_to_history self (length (heats st)))"
  proof (cases single)
    case True
    then show ?thesis using integrate_single(2)[of self st2 "f_current_heatmap f" st3 "f_self f" "f_heatmap f"] c
      by simp
  next
    case False
    then show ?thesis using integrate_stream(1)[of self st2 "f_current_heatmap f" st3 "f_self f" "f_heatmap f"] c cur
      by simp
  qed
  show "f_heat_thresh_low f = real (length (nlast_heatmaps (f_self f))) * thresh_low (f_self f)"
    using t(1) by (simp add: heat_thresh_low_def)
  show "f_heat_thresh_high f = real (length (nlast_heatmaps (f_self f))) * thresh_high (f_self f)"
    using t(2) by (simp add: heat_thresh_high_def)
qed

lemma find_cars_frame_fused:
  assumes "find_cars_frame lib self st img single = Inr f"
  shows "f_heatmap f < length (heats (f_store f))"
    and "single \<Longrightarrow> f_heatmap f = f_current_heatmap f"
    and "\<not> single \<Longrightarrow> list_all (\<lambda>a. a < length (heats st)) (nlast_heatmaps self) \<Longrightarrow>
           py_sum (map (\<lambda>a. heats (f_store f) ! a) (nlast_heatmaps (f_self f))) =
             Inr (heats (f_store f) ! f_heatmap f)"
    and "heats (f_store f) ! f_heatmap_thresh f =
           zero_below (heats (f_store f) ! f_heatmap f) (f_heat_thresh_low f)
             (heats (f_store f) ! f_heatmap f)"
    and "f_labels f = label lib (heats (f_store f) ! f_heatmap_thresh f)"
    and "hot_label_regions (f_labels f) (heats (f_store f) ! f_heatmap_thresh f) (f_heat_thresh_high f) =
           Inr (f_bboxes f)"
proof -
  from assms obtain st1 st2 st3 st4 where
    a: "search_all lib self st img (search_settings self) ([], []) = Inr (st1, f_windows f, f_window_scores f)"
    and b: "make_heatmap lib self st1 img (f_windows f) (f_window_scores f) = (st2, f_current_heatmap f)"
    and c: "integrate self st2 (f_current_heatmap f) single = Inr (st3, f_self f, f_heatmap f)"
    and d: "extract_regions lib (f_self f) st3 (f_heatmap f) = Inr (st4, f_heatmap_thresh f, f_labels f, f_bboxes f)"
    and e: "visualize lib (f_self f) st4 img (f_heatmap f) (f_bboxes f) (f_windows f) = (f_store f, f_ret_img f)"
    and t: "f_heat_thresh_low f = heat_thresh_low (f_self f)"
           "f_heat_thresh_high f = heat_thresh_high (f_self f)"
    by (rule find_cars_frame_stages)
  have s1: "grows st st1" "heats st1 = heats st" using search_all_store[OF a] by simp_all
  note m = make_heatmap_effect[OF b]
  have g23: "grows st2 st3" using c by (rule integrate_grows)
  have g34: "grows st3 st4" using d by (rule extract_regions_grows)
  have g4: "grows st4 (f_store f)" using e by (rule visualize_grows(1))
  have g3: "grows st3 (f_store f)" using g34 g4 by (rule grows_trans)
  have g2: "grows st2 (f_store f)" using g23 g3 by (rule grows_trans)
  have lt3: "f_heatmap f < length (heats st3)"
  proof (cases single)
    case True
    then have "st3 = st2" "f_heatmap f = f_current_heatmap f"
      using integrate_single[of self st2 "f_current_heatmap f" st3 "f_self f" "f_heatmap f"] c by simp_all
    then show ?thesis using m(1,3) by simp
  next
    case False
    then show ?thesis
      using integrate_stream(2,4)[of self st2 "f_current_heatmap f" st3 "f_self f" "f_heatmap f"] c by auto
  qed
  show "f_heatmap f < length (heats (f_store f))"
    using lt3 grows_heats_length[OF g3] by simp
  show "f_heatmap f = f_current_heatmap f" if single
    using that integrate_single(3)[of self st2 "f_current_heatmap f" st3 "f_self f" "f_heatmap f"] c by simp
  have fused_final: "heats (f_store f) ! f_heatmap f = heats st3 ! f_heatmap f"
    using g3 lt3 by (rule grows_heat)
  note x = extract_regions_effect[OF d]
  have thr4: "heats st4 ! f_heatmap_thresh f =
      zero_below (heats st3 ! f_heatmap f) (heat_thresh_low (f_self f)) (heats st3 ! f_heatmap f)"
    using x(1) x(3)[OF lt3] by simp
  have lt4: "f_heatmap_thresh f < length (heats st4)" using x(1) x(3)[OF lt3] by simp
  have thr_final: "heats (f_store f) ! f_heatmap_thresh f = heats st4 ! f_heatmap_thresh f"
    using g4 lt4 by (rule grows_heat)
  show "heats (f_store f) ! f_heatmap_thresh f =
           zero_below (heats (f_store f) ! f_heatmap f) (f_heat_thresh_low f)
             (heats (f_store f) ! f_heatmap f)"
    using thr_final thr4 fused_final t(1) by simp
  show "f_labels f = label lib (heats (f_store f) ! f_heatmap_thresh f)"
    using x(4) thr_final by simp
  show "hot_label_regions (f_labels f) (heats (f_store f) ! f_heatmap_thresh f) (f_heat_thresh_high f) =
           Inr (f_bboxes f)"
    using x(5) thr_final t(2) by simp
  show "py_sum (map (\<lambda>a. heats (f_store f) ! a) (nlast_heatmaps (f_self f))) =
             Inr (heats (f_store f) ! f_heatmap f)"
    if ns: "\<not> single" and wf: "list_all (\<lambda>a. a < length (heats st)) (nlast_heatmaps self)"
  proof -
    note i = integrate_stream[of self st2 "f_current_heatmap f" st3 "f_self f" "f_heatmap f"]
    have self': "f_self f = add_to_history self (f_current_heatmap f)" using i(1) c ns by simp
    obtain summed where
      sm: "py_sum (map (\<lambda>a. heats st2 ! a) (nlast_heatmaps (f_self f))) = Inr summed"
      and h3: "heats st3 = heats st2 @ [summed]"
      using i(4) c ns self' by auto
    have fz: "f_heatmap f = length (heats st2)" using i(2) c ns by simp
    have "set (nlast_heatmaps (f_self f)) \<subseteq> set (nlast_heatmaps self @ [f_current_heatmap f])"
      unfolding self' add_to_history_def slice_from_def Let_def
      by (auto dest: in_set_dropD)
    moreover have "\<forall>a \<in> set (nlast_heatmaps self @ [f_current_heatmap f]). a < length (heats st2)"
      using wf m(1,3) s1(2) by (auto simp: list_all_iff)
    ultimately have valid: "\<forall>a \<in> set (nlast_heatmaps (f_self f)). a < length (heats st2)" by blast
    have same: "map (\<lambda>a. heats (f_store f) ! a) (nlast_heatmaps (f_self f)) =
          map (\<lambda>a. heats st2 ! a) (nlast_heatmaps (f_self f))"
    proof (rule map_cong[OF refl])
      fix a assume "a \<in> set (nlast_heatmaps (f_self f))"
      then have "a < length (heats st2)" using valid by blast
      then show "heats (f_store f) ! a = heats st2 ! a" using g2 by (simp add: grows_heat)
    qed
    have "heats st3 ! f_heatmap f = summed" using h3 fz by simp
    then have "heats (f_store f) ! f_heatmap f = summed" using fused_final by simp
    then show ?thesis unfolding same using sm by simp
  qed
qed

subsection \<open>The visualisation setting is not read before line 144\<close>

lemma window_search_cars_viz:
  "window_search_cars lib (self\<lparr>viz := v\<rparr>) st img xr yr sc ov = window_search_cars lib self st img xr yr sc ov"
  by (simp add: window_search_cars_def Let_def cong: if_cong sum.case_cong prod.case_cong)

lemma search_all_viz:
  "search_all lib (self\<lparr>viz := v\<rparr>) st img settings acc = search_all lib self st img settings acc"
  by (induction lib self st img settings acc rule: search_all.induct)
     (simp_all add: window_search_cars_viz split: sum.splits)

lemma make_heatmap_viz:
  "make_heatmap lib (self\<lparr>viz := v\<rparr>) st img ws scores = make_heatmap lib self st img ws scores"
  by (simp add: make_heatmap_def)

lemma add_to_history_viz:
  "add_to_history (self\<lparr>viz := v\<rparr>) c = (add_to_history self c)\<lparr>viz := v\<rparr>"
  by (simp add: add_to_history_def Let_def)

lemma integrate_viz:
  "integrate (self\<lparr>viz := v\<rparr>) st c single =
     map_sum id (\<lambda>(st', s, fused). (st', s\<lparr>viz := v\<rparr>, fused)) (integrate self st c single)"
  by (simp add: integrate_def add_to_history_viz Let_def split: sum.splits prod.splits)

lemma extract_regions_viz:
  "extract_regions lib (self\<lparr>viz := v\<rparr>) st fused = extract_regions lib self st fused"
  by (simp add: extract_regions_def heat_thresh_low_def heat_thresh_high_def)

lemma find_cars_detect_viz:
  "find_cars_detect lib (self\<lparr>viz := v\<rparr>) st img single =
     map_sum id (\<lambda>(st4, s, r). (st4, s\<lparr>viz := v\<rparr>, r)) (find_cars_detect lib self st img single)"
  unfolding find_cars_detect_def
  by (simp add: search_all_viz make_heatmap_viz integrate_viz extract_regions_viz Let_def
           split: sum.splits prod.splits)

subsection \<open>Region extraction\<close>

lemma find_cars_frame_ret:
  assumes "find_cars_frame lib self st img single = Inr f"
  shows "length (images st) \<le> f_ret_img f"
proof -
  from assms obtain st1 st2 st3 st4 where
    a: "search_all lib self st img (search_settings self) ([], []) = Inr (st1, f_windows f, f_window_scores f)"
    and b: "make_heatmap lib self st1 img (f_windows f) (f_window_scores f) = (st2, f_current_heatmap f)"
    and c: "integrate self st2 (f_current_heatmap f) single = Inr (st3, f_self f, f_heatmap f)"
    and d: "extract_regions lib (f_self f) st3 (f_heatmap f) = Inr (st4, f_heatmap_thresh f, f_labels f, f_bboxes f)"
    and e: "visualize lib (f_self f) st4 img (f_heatmap f) (f_bboxes f) (f_windows f) = (f_store f, f_ret_img f)"
    by (rule find_cars_frame_stages)
  have g01: "grows st st1" using search_all_store[OF a] by simp
  have g12: "grows st1 st2" using b by (rule make_heatmap_grows)
  have g23: "grows st2 st3" using c by (rule integrate_grows)
  have g34: "grows st3 st4" using d by (rule extract_regions_grows)
  have "grows st st4"
    by (rule grows_trans[OF g01 grows_trans[OF g12 grows_trans[OF g23 g34]]])
  then have "length (images st) \<le> length (images st4)" by (rule grows_images_length)
  moreover have "length (images st4) \<le> f_ret_img f" using e by (rule visualize_grows(2))
  ultimately show ?thesis by simp
qed

lemma center_heat_Inr:
  "center_heat hm b = Inr v \<Longrightarrow> v = cell hm (center_row b) (center_col b)"
  by (simp add: center_heat_def split: if_splits)

lemma hot_loop_set:
  "hot_loop lab hm thr ids acc = Inr res \<Longrightarrow>
     set res = set acc \<union>
       {b. \<exists>i \<in> set ids. label_bbox lab i = Inr b \<and> cell hm (center_row b) (center_col b) \<ge> thr}"
proof (induction ids arbitrary: acc)
  case Nil
  then show ?case by simp
next
  case (Cons i ids)
  from Cons.prems obtain b v where
    b: "label_bbox lab i = Inr b" and v: "center_heat hm b = Inr v"
    and rest: "hot_loop lab hm thr ids (if v \<ge> thr then acc @ [b] else acc) = Inr res"
    by (auto split: sum.splits)
  have veq: "v = cell hm (center_row b) (center_col b)" using v by (rule center_heat_Inr)
  have "set res = set (if v \<ge> thr then acc @ [b] else acc) \<union>
       {b. \<exists>i \<in> set ids. label_bbox lab i = Inr b \<and> cell hm (center_row b) (center_col b) \<ge> thr}"
    using rest by (rule Cons.IH)
  then show ?case using b veq by auto
qed

lemma hot_label_regions_set:
  assumes "hot_label_regions labelled hm thr = Inr res"
  shows "set res =
       {b. \<exists>i. 1 \<le> i \<and> i \<le> snd labelled \<and> label_bbox (fst labelled) i = Inr b \<and>
               cell hm (center_row b) (center_col b) \<ge> thr}"
  using hot_loop_set[OF assms[unfolded hot_label_regions_def]] by auto

subsection \<open>Detection and visualisation\<close>

lemma add_to_history_set:
  "set (nlast_heatmaps (add_to_history self c)) \<subseteq> insert c (set (nlast_heatmaps self))"
  unfolding add_to_history_def slice_from_def Let_def
  by (auto dest: in_set_dropD)

lemma find_cars_detect_history_valid:
  assumes "find_cars_detect lib self st img single = Inr (st4, s, wss, addrs, lab, bbs)"
    and "list_all (\<lambda>a. a < length (heats st)) (nlast_heatmaps self)"
  shows "list_all (\<lambda>a. a < length (heats st4)) (nlast_heatmaps s)"
proof -
  obtain ws scores cur fused thr where wss: "wss = (ws, scores)" and addrs: "addrs = (cur, fused, thr)"
    by (cases wss, cases addrs) auto
  from assms(1) obtain st1 st2 st3 where
    a: "search_all lib self st img (search_settings self) ([], []) = Inr (st1, ws, scores)"
    and b: "make_heatmap lib self st1 img ws scores = (st2, cur)"
    and c: "integrate self st2 cur single = Inr (st3, s, fused)"
    and d: "extract_regions lib s st3 fused = Inr (st4, thr, lab, bbs)"
    unfolding find_cars_detect_def wss addrs
    by (auto simp: Let_def split: sum.splits prod.splits)
  have s1: "heats st1 = heats st" using search_all_store[OF a] by simp
  note m = make_heatmap_effect[OF b]
  have g23: "grows st2 st3" using c by (rule integrate_grows)
  have g34: "grows st3 st4" using d by (rule extract_regions_grows)
  have "grows st2 st4" using g23 g34 by (rule grows_trans)
  then have len: "length (heats st2) \<le> length (heats st4)" by (rule grows_heats_length)
  have old: "\<forall>a \<in> set (nlast_heatmaps self). a < length (heats st2)"
    using assms(2) m(3) s1 by (auto simp: list_all_iff)
  have cur: "cur < length (heats st2)" using m(1,3) by simp
  have "\<forall>a \<in> set (nlast_heatmaps s). a < length (heats st2)"
  proof (cases single)
    case True
    then have "s = self" using integrate_single(2)[of self st2 cur st3 s fused] c by simp
    then show ?thesis using old by simp
  next
    case False
    then have "s = add_to_history self cur" using integrate_stream(1)[of self st2 cur st3 s fused] c by simp
    then show ?thesis using add_to_history_set[of self cur] old cur by auto
  qed
  then show ?thesis using len by (auto simp: list_all_iff)
qed

lemma find_cars_frame_detection:
  assumes d: "find_cars_detect lib self st img single = Inr (st4, s, wss, addrs, lab, bbs)"
    and wf: "list_all (\<lambda>a. a < length (heats st)) (nlast_heatmaps self)"
  shows "map_sum id detection (find_cars_frame lib (self\<lparr>viz := v\<rparr>) st img single) =
           Inr (bbs, nlast_heatmaps s, map (\<lambda>a. heats st4 ! a) (nlast_heatmaps s))"
proof -
  obtain ws scores cur fused thr where wss: "wss = (ws, scores)" and addrs: "addrs = (cur, fused, thr)"
    by (cases wss, cases addrs) auto
  obtain st5 ret where vz: "visualize lib (s\<lparr>viz := v\<rparr>) st4 img fused bbs ws = (st5, ret)"
    by (cases "visualize lib (s\<lparr>viz := v\<rparr>) st4 img fused bbs ws") auto
  have g: "grows st4 st5" using vz by (rule visualize_grows(1))
  have valid: "list_all (\<lambda>a. a < length (heats st4)) (nlast_heatmaps s)"
    using d wf by (rule find_cars_detect_history_valid)
  have same: "map (\<lambda>a. heats st5 ! a) (nlast_heatmaps s) = map (\<lambda>a. heats st4 ! a) (nlast_heatmaps s)"
  proof (rule map_cong[OF refl])
    fix a assume "a \<in> set (nlast_heatmaps s)"
    then have "a < length (heats st4)" using valid by (simp add: list_all_iff)
    then show "heats st5 ! a = heats st4 ! a" using g by (simp add: grows_heat)
  qed
  show ?thesis
    unfolding find_cars_frame_def find_cars_detect_viz d wss addrs
    by (simp add: vz detection_def same)
qed

lemma find_cars_frame_detect_error:
  assumes "find_cars_detect lib self st img single = Inl e"
  shows "find_cars_frame lib (self\<lparr>viz := v\<rparr>) st img single = Inl e"
  unfolding find_cars_frame_def find_cars_detect_viz assms by simp

lemma find_cars_frame_boxes:
  assumes d: "find_cars_detect lib self st img single = Inr (st4, s, wss, addrs, lab, bbs)"
  shows "map_sum id (\<lambda>f. (f_bboxes f, nlast_heatmaps (f_self f)))
           (find_cars_frame lib (self\<lparr>viz := v\<rparr>) st img single) =
           Inr (bbs, nlast_heatmaps s)"
proof -
  obtain ws scores cur fused thr where wss: "wss = (ws, scores)" and addrs: "addrs = (cur, fused, thr)"
    by (cases wss, cases addrs) auto
  obtain st5 ret where vz: "visualize lib (s\<lparr>viz := v\<rparr>) st4 img fused bbs ws = (st5, ret)"
    by (cases "visualize lib (s\<lparr>viz := v\<rparr>) st4 img fused bbs ws") auto
  show ?thesis
    unfolding find_cars_frame_def find_cars_detect_viz d wss addrs
    by (simp add: vz)
qed

subsection \<open>The history over a run\<close>

lemma add_to_history_nlast:
  assumes "1 \<le> heatmap_history self"
  shows "nlast_heatmaps (add_to_history self c) =
           drop (length (nlast_heatmaps self @ [c]) - nat (heatmap_history self)) (nlast_heatmaps self @ [c])"
  using assms
  by (auto simp: add_to_history_def slice_from_def slice_bound_def Let_def nat_diff_distrib' max_def
           intro!: arg_cong2[where f=drop])

lemma add_to_history_capacity: "heatmap_history (add_to_history self c) = heatmap_history self"
  by (simp add: add_to_history_def Let_def)

lemma drop_last_append:
  "drop (length (drop (length xs - k) xs @ ys) - k) (drop (length xs - k) xs @ ys) =
   drop (length (xs @ ys) - k) (xs @ ys)"
proof (cases "length xs \<le> k")
  case True
  then show ?thesis by simp
next
  case False
  then have r: "length (xs @ ys) - k = length ys + (length xs - k)" by simp
  have l: "length (drop (length xs - k) xs @ ys) - k = length ys" using False by simp
  have "drop (length ys + (length xs - k)) (xs @ ys) = drop (length ys) (drop (length xs - k) (xs @ ys))"
    by (simp only: drop_drop)
  also have "\<dots> = drop (length ys) (drop (length xs - k) xs @ ys)" by simp
  finally show ?thesis unfolding l r by simp
qed

lemma find_cars_stream_last:
  assumes "find_cars_stream lib self st imgs = Inr fs" and "imgs \<noteq> []"
  shows "fs \<noteq> [] \<and> length fs = length imgs \<and> grows st (f_store (last fs))"
  using assms
proof (induction imgs arbitrary: self st fs)
  case Nil
  then show ?case by simp
next
  case (Cons img imgs)
  from Cons.prems(1) obtain f fs' where
    f: "find_cars_frame lib self st img False = Inr f"
    and rest: "find_cars_stream lib (f_self f) (f_store f) imgs = Inr fs'"
    and fs: "fs = f # fs'"
    by (auto split: sum.splits)
  have g: "grows st (f_store f)" using f by (rule find_cars_frame_grows)
  show ?case
  proof (cases "imgs = []")
    case True
    then have "fs' = []" using rest by simp
    then show ?thesis using fs g True by simp
  next
    case False
    have "fs' \<noteq> [] \<and> length fs' = length imgs \<and> grows (f_store f) (f_store (last fs'))"
      using rest False by (rule Cons.IH)
    then show ?thesis using fs g by (auto intro: grows_trans)
  qed
qed

lemma find_cars_stream_history:
  assumes "find_cars_stream lib self st imgs = Inr fs" and "imgs \<noteq> []"
    and "1 \<le> heatmap_history self"
  shows "heatmap_history (f_self (last fs)) = heatmap_history self \<and>
         nlast_heatmaps (f_self (last fs)) =
           drop (length (nlast_heatmaps self @ map f_current_heatmap fs) - nat (heatmap_history self))
                (nlast_heatmaps self @ map f_current_heatmap fs)"
  using assms
proof (induction imgs arbitrary: self st fs)
  case Nil
  then show ?case by simp
next
  case (Cons img imgs)
  from Cons.prems(1) obtain f fs' where
    f: "find_cars_frame lib self st img False = Inr f"
    and rest: "find_cars_stream lib (f_self f) (f_store f) imgs = Inr fs'"
    and fs: "fs = f # fs'"
    by (auto split: sum.splits)
  have cur: "f_current_heatmap f = length (heats st)" using f by (rule find_cars_frame_current(1))
  have self1: "f_self f = add_to_history self (f_current_heatmap f)"
    using find_cars_frame_self(1)[OF f] cur by simp
  have cap1: "heatmap_history (f_self f) = heatmap_history self"
    by (simp add: self1 add_to_history_capacity)
  have n1: "nlast_heatmaps (f_self f) =
      drop (length (nlast_heatmaps self @ [f_current_heatmap f]) - nat (heatmap_history self))
           (nlast_heatmaps self @ [f_current_heatmap f])"
    unfolding self1 using Cons.prems(3) by (rule add_to_history_nlast)
  show ?case
  proof (cases "imgs = []")
    case True
    then have "fs' = []" using rest by simp
    then show ?thesis using fs cap1 n1 by simp
  next
    case False
    have ne: "fs' \<noteq> []" using find_cars_stream_last[OF rest False] by simp
    have ih: "heatmap_history (f_self (last fs')) = heatmap_history (f_self f) \<and>
         nlast_heatmaps (f_self (last fs')) =
           drop (length (nlast_heatmaps (f_self f) @ map f_current_heatmap fs') - nat (heatmap_history (f_self f)))
                (nlast_heatmaps (f_self f) @ map f_current_heatmap fs')"
      using rest False Cons.prems(3) cap1 by (intro Cons.IH) simp_all
    have "drop (length (nlast_heatmaps (f_self f) @ map f_current_heatmap fs') - nat (heatmap_history self))
                (nlast_heatmaps (f_self f) @ map f_current_heatmap fs') =
          drop (length ((nlast_heatmaps self @ [f_current_heatmap f]) @ map f_current_heatmap fs') - nat (heatmap_history self))
                ((nlast_heatmaps self @ [f_current_heatmap f]) @ map f_current_heatmap fs')"
      unfolding n1 by (rule drop_last_append)
    then show ?thesis using ih cap1 fs ne by simp
  qed
qed

lemma find_cars_stream_contents:
  assumes "find_cars_stream lib self st imgs = Inr fs"
  shows "list_all (\<lambda>g. heats (f_store (last fs)) ! f_current_heatmap g =
                        heats (f_store g) ! f_current_heatmap g) fs"
  using assms
proof (induction imgs arbitrary: self st fs)
  case Nil
  then show ?case by simp
next
  case (Cons img imgs)
  from Cons.prems(1) obtain f fs' where
    f: "find_cars_frame lib self st img False = Inr f"
    and rest: "find_cars_stream lib (f_self f) (f_store f) imgs = Inr fs'"
    and fs: "fs = f # fs'"
    by (auto split: sum.splits)
  show ?case
  proof (cases "imgs = []")
    case True
    then have "fs' = []" using rest by simp
    then show ?thesis using fs by simp
  next
    case False
    have l: "fs' \<noteq> []" "grows (f_store f) (f_store (last fs'))"
      using find_cars_stream_last[OF rest False] by simp_all
    have "f_current_heatmap f < length (heats (f_store f))" using f by (rule find_cars_frame_current(2))
    then have "heats (f_store (last fs')) ! f_current_heatmap f = heats (f_store f) ! f_current_heatmap f"
      using l(2) by (simp add: grows_heat)
    moreover have "list_all (\<lambda>g. heats (f_store (last fs')) ! f_current_heatmap g =
                        heats (f_store g) ! f_current_heatmap g) fs'"
      using rest by (rule Cons.IH)
    ultimately show ?thesis using fs l(1) by simp
  qed
qed

subsection \<open>Bounding boxes and sums of one heatmap\<close>

lemma set_pixel_locs:
  "set (pixel_locs lab i) = {(y, x). y < nrows lab \<and> x < ncols lab \<and> cell lab y x = i}"
  by (auto simp: pixel_locs_def)

lemma label_bbox_eqI:
  assumes inside: "\<And>y x. y < nrows lab \<Longrightarrow> x < ncols lab \<Longrightarrow> cell lab y x = i \<Longrightarrow>
                      x0 \<le> x \<and> x \<le> x1 \<and> y0 \<le> y \<and> y \<le> y1"
    and left: "ya < nrows lab" "x0 < ncols lab" "cell lab ya x0 = i"
    and right: "yb < nrows lab" "x1 < ncols lab" "cell lab yb x1 = i"
    and top: "y0 < nrows lab" "xa < ncols lab" "cell lab y0 xa = i"
    and bottom: "y1 < nrows lab" "xb < ncols lab" "cell lab y1 xb = i"
  shows "label_bbox lab i = Inr ((int x0, int y0), (int x1, int y1))"
proof -
  let ?L = "pixel_locs lab i"
  have mem: "(ya, x0) \<in> set ?L" "(yb, x1) \<in> set ?L" "(y0, xa) \<in> set ?L" "(y1, xb) \<in> set ?L"
    using left right top bottom by (simp_all add: set_pixel_locs)
  then have ne: "?L \<noteq> []" by auto
  have xs: "set (map snd ?L) = snd ` set ?L" and ys: "set (map fst ?L) = fst ` set ?L" by simp_all
  have fin: "finite (snd ` set ?L)" "finite (fst ` set ?L)" by simp_all
  have minx: "Min (snd ` set ?L) = x0"
  proof (rule Min_eqI[OF fin(1)])
    show "x0 \<in> snd ` set ?L" using mem(1) by force
    fix x assume "x \<in> snd ` set ?L"
    then show "x0 \<le> x" using inside by (auto simp: set_pixel_locs)
  qed
  have maxx: "Max (snd ` set ?L) = x1"
  proof (rule Max_eqI[OF fin(1)])
    show "x1 \<in> snd ` set ?L" using mem(2) by force
    fix x assume "x \<in> snd ` set ?L"
    then show "x \<le> x1" using inside by (auto simp: set_pixel_locs)
  qed
  have miny: "Min (fst ` set ?L) = y0"
  proof (rule Min_eqI[OF fin(2)])
    show "y0 \<in> fst ` set ?L" using mem(3) by force
    fix y assume "y \<in> fst ` set ?L"
    then show "y0 \<le> y" using inside by (auto simp: set_pixel_locs)
  qed
  have maxy: "Max (fst ` set ?L) = y1"
  proof (rule Max_eqI[OF fin(2)])
    show "y1 \<in> fst ` set ?L" using mem(4) by force
    fix y assume "y \<in> fst ` set ?L"
    then show "y \<le> y1" using inside by (auto simp: set_pixel_locs)
  qed
  show ?thesis
    unfolding label_bbox_def Let_def xs ys minx maxx miny maxy using ne by simp
qed

lemma py_sum_single:
  assumes "nrows a \<noteq> 1" and "ncols a \<noteq> 1"
  shows "py_sum [a] = Inr a"
  using assms by (simp add: py_sum_def np_add_def py_zero_def broadcast_dim_def)

subsection \<open>Running the scene\<close>

lemma scene_lib_fields:
  "img_shape scene_lib im = fst im"
  "np_crop scene_lib im yr xr =
     ((slice_bound (fst (fst im)) (snd yr) - slice_bound (fst (fst im)) (fst yr),
       slice_bound (snd (fst im)) (snd xr) - slice_bound (snd (fst im)) (fst xr)), snd im)"
  "cv2_resize scene_lib im sz = ((nat (snd sz), nat (fst sz)), snd im)"
  "hog_shape scene_lib hog = hog"
  "hog_window scene_lib hog yb xb = (hog, fst yb, fst xb)"
  "label scene_lib hm =
     (\<lparr>nrows = nrows hm, ncols = ncols hm, cell = (\<lambda>y x. if cell hm y x = 0 then 0 else 1)\<rparr>, 1)"
  "cv2_rectangle scene_lib im p q color thick = (fst im, snd im @ [(p, q)])"
  "cv2_normalize scene_lib hm = hm"
  "heat_blend scene_lib im hm = im"
  by (simp_all add: scene_lib_def)

lemma scene_fvb_fields:
  "input_img_shape scene_fvb = (4, 4)"
  "pixels_per_cell_edge scene_fvb = 1"
  "cells_per_block_edge scene_fvb = 1"
  "hog_features scene_fvb im = (int (fst (fst im)), int (snd (fst im)))"
  "get_features scene_fvb ps = map snd ps"
  by (simp_all add: scene_fvb_def)

lemma scene_finder_fields:
  "search_settings (scene_finder v h lo hi) =
     [(380, 500, 1, 6 / 8), (380, 550, 13 / 10, 5 / 8), (380, 600, 22 / 10, 6 / 8)]"
  "x_range (scene_finder v h lo hi) = (0, 1280)"
  "max_frame_heat (scene_finder v h lo hi) = hi * (15 / 10)"
  "thresh_low (scene_finder v h lo hi) = lo"
  "thresh_high (scene_finder v h lo hi) = hi"
  "heatmap_history (scene_finder v h lo hi) = h"
  "nlast_heatmaps (scene_finder v h lo hi) = []"
  "clf (scene_finder v h lo hi) = scene_clf"
  "fvb (scene_finder v h lo hi) = scene_fvb"
  "viz (scene_finder v h lo hi) = v"
  by (simp_all add: scene_finder_def CarFinder_init_def)

lemma scene_clf_simps:
  "scene_clf [] = []"
  "scene_clf ((hog, yb, xb) # rest) =
     (if hog = (9, 9) \<and> ((yb, xb) = (0, 4) \<or> (yb, xb) = (4, 0) \<or> (yb, xb) = (4, 4)) then 1
      else if hog = (9, 9) \<and> (yb, xb) = (0, 0) then 27 / 100 else - 1) # scene_clf rest"
  by (simp_all add: scene_clf_def)

lemma scene_window_at:
  "window_at scene_lib scene_fvb im hog xr yr sc bpw step xs ys =
     (((py_int (real_of_int (xs * step) * sc) + fst xr, py_int (real_of_int (ys * step) * sc) + fst yr),
       (py_int (real_of_int (xs * step) * sc) + fst xr + py_int (4 * sc),
        py_int (real_of_int (ys * step) * sc) + fst yr + py_int (4 * sc))),
      ((4, 4), snd im), (hog, ys * step, xs * step))"
  by (simp add: window_at_def scene_lib_fields scene_fvb_fields Let_def)

lemmas scene_search_simps = window_search_cars_def np_copy_image_def new_image_def Let_def slice_bound_def
  py_int_def cells_per_window_step_def py_range_def upto.simps
  scene_lib_fields scene_fvb_fields scene_clf_simps scene_window_at

lemma scene_search:
  assumes "fvb self = scene_fvb" and "clf self = scene_clf" and "x_range self = (0, 1280)"
    and "0 < length (images st)" and "images st ! 0 = ((389, 9), d)"
  shows "search_all scene_lib self st 0
           [(380, 500, 1, 6 / 8), (380, 550, 13 / 10, 5 / 8), (380, 600, 22 / 10, 6 / 8)] ([], []) =
         Inr (st\<lparr>images := images st @ [((389, 9), d), ((389, 9), d), ((389, 9), d)]\<rparr>,
              scene_windows, scene_scores)"
  using assms(4)
  by (simp add: scene_search_simps assms(1,2,3,5) nth_append scene_windows_def scene_scores_def)

lemma scene_heat_shape: "nrows scene_heat = 389" "ncols scene_heat = 9"
  by (simp_all add: scene_heat_def cap_heat_def gen_heatmap_shape)

lemma scene_heat_cell:
  "cell scene_heat y x =
     (if 380 \<le> y \<and> y < 384 \<and> x < 4 then 27 / 100
      else if 380 \<le> y \<and> y < 388 \<and> x < 8 then 3 / 8 else 0)"
  by (auto simp: scene_heat_def cap_heat_def gen_heatmap_cell scene_windows_def scene_scores_def
        in_slices_def slice_bound_def)


lemma scene_centers: "center_row scene_bbox = 383" "center_col scene_bbox = 3"
  by (simp_all add: center_row_def center_col_def scene_bbox_def)

lemma scene_regions:
  assumes "nrows T = 389" and "ncols T = 9"
    and inside: "\<And>y x. cell T y x \<noteq> 0 \<Longrightarrow> x \<le> 7 \<and> 380 \<le> y \<and> y \<le> 387"
    and "cell T 380 7 \<noteq> 0" and "cell T 387 0 \<noteq> 0"
  shows "label_bbox (fst (label scene_lib T)) 1 = Inr scene_bbox"
    and "hot_label_regions (label scene_lib T) T thr =
           Inr (if cell T 383 3 \<ge> thr then [scene_bbox] else [])"
proof -
  let ?lab = "fst (label scene_lib T)"
  have lab: "nrows ?lab = 389" "ncols ?lab = 9"
    "\<And>y x. cell ?lab y x = (if cell T y x = 0 then 0 else 1)"
    "snd (label scene_lib T) = 1"
    using assms(1,2) by (simp_all add: scene_lib_fields)
  have "label_bbox ?lab 1 = Inr ((int 0, int 380), (int 7, int 387))"
  proof (rule label_bbox_eqI[where ya=387 and yb=380 and xa=7 and xb=0])
    fix y x assume "cell ?lab y x = 1"
    then have "cell T y x \<noteq> 0" by (simp add: lab(3) split: if_splits)
    then show "0 \<le> x \<and> x \<le> 7 \<and> 380 \<le> y \<and> y \<le> 387" using inside by simp
  qed (simp_all add: lab assms(4,5))
  then show bb: "label_bbox ?lab 1 = Inr scene_bbox" by (simp add: scene_bbox_def)
  have ch: "center_heat T scene_bbox = Inr (cell T 383 3)"
    by (simp add: center_heat_def scene_centers assms(1,2))
  show "hot_label_regions (label scene_lib T) T thr =
           Inr (if cell T 383 3 \<ge> thr then [scene_bbox] else [])"
    by (simp add: hot_label_regions_def lab(4) upto.simps bb ch)
qed

lemma scene_frame:
  assumes fields: "fvb self = scene_fvb" "clf self = scene_clf" "x_range self = (0, 1280)"
      "search_settings self = [(380, 500, 1, 6 / 8), (380, 550, 13 / 10, 5 / 8), (380, 600, 22 / 10, 6 / 8)]"
      "max_frame_heat self = 3 / 8"
    and img: "0 < length (images st)" "images st ! 0 = ((389, 9), d)"
    and self1: "self1 = (if single then self else add_to_history self (length (heats st)))"
    and hist: "single \<or> nlast_heatmaps self1 = [length (heats st)]"
    and low: "heat_thresh_low self1 \<le> 3 / 8"
    and T: "T = zero_below scene_heat (heat_thresh_low self1) scene_heat"
  obtains F where "find_cars_frame scene_lib self st 0 single = Inr F"
    and "f_self F = self1" and "f_windows F = scene_windows" and "f_window_scores F = scene_scores"
    and "heats (f_store F) ! f_current_heatmap F = scene_heat"
    and "heats (f_store F) ! f_heatmap F = scene_heat"
    and "heats (f_store F) ! f_heatmap_thresh F = T"
    and "f_labels F = label scene_lib T"
    and "f_bboxes F = (if cell T 383 3 \<ge> heat_thresh_high self1 then [scene_bbox] else [])"
proof -
  let ?i = "((389, 9), d) :: scene_img"
  let ?c = "length (heats st)"
  define st1 where "st1 = st\<lparr>images := images st @ [?i, ?i, ?i]\<rparr>"
  have s: "search_all scene_lib self st 0 (search_settings self) ([], []) =
             Inr (st1, scene_windows, scene_scores)"
    unfolding fields(4) st1_def using fields(1,2,3) img by (rule scene_search)
  define st2 where "st2 = st1\<lparr>heats := heats st @ [scene_heat]\<rparr>"
  have i0: "images st1 ! 0 = ?i" using img by (simp add: st1_def nth_append)
  have h1: "heats st1 = heats st" by (simp add: st1_def)
  have m: "make_heatmap scene_lib self st1 0 scene_windows scene_scores = (st2, ?c)"
    by (simp add: make_heatmap_def new_heat_def set_heat_def Let_def i0 h1 scene_lib_fields fields(5)
          scene_heat_def st2_def)
  define st3 where "st3 = (if single then st2 else st2\<lparr>heats := heats st2 @ [scene_heat]\<rparr>)"
  define fz where "fz = (if single then ?c else Suc ?c)"
  have ig: "integrate self st2 ?c single = Inr (st3, self1, fz)"
  proof (cases single)
    case True
    then show ?thesis by (simp add: integrate_def st3_def fz_def self1)
  next
    case False
    then have n: "nlast_heatmaps (add_to_history self ?c) = [?c]" using hist self1 by simp
    have "py_sum [scene_heat] = Inr scene_heat"
      by (rule py_sum_single) (simp_all add: scene_heat_shape)
    then show ?thesis using False
      by (simp add: integrate_def Let_def n new_heat_def st3_def fz_def self1 st2_def)
  qed
  have l3: "fz < length (heats st3)" "heats st3 ! fz = scene_heat"
    by (simp_all add: st3_def fz_def st2_def nth_append)
  define st4 where "st4 = st3\<lparr>heats := heats st3 @ [T]\<rparr>"
  have Tshape: "nrows T = 389" "ncols T = 9" by (simp_all add: T zero_below_def scene_heat_shape)
  have Tcell: "\<And>y x. cell T y x =
      (if cell scene_heat y x < heat_thresh_low self1 then 0 else cell scene_heat y x)"
    by (simp add: T zero_below_def)
  have Tin: "\<And>y x. cell T y x \<noteq> 0 \<Longrightarrow> x \<le> 7 \<and> 380 \<le> y \<and> y \<le> 387"
    by (auto simp: Tcell scene_heat_cell split: if_splits)
  have Tne: "cell T 380 7 \<noteq> 0" "cell T 387 0 \<noteq> 0"
    using low by (simp_all add: Tcell scene_heat_cell)
  have hl: "hot_label_regions (label scene_lib T) T (heat_thresh_high self1) =
              Inr (if cell T 383 3 \<ge> heat_thresh_high self1 then [scene_bbox] else [])"
    using Tshape Tin Tne by (rule scene_regions(2))
  have ex: "extract_regions scene_lib self1 st3 fz =
              Inr (st4, length (heats st3), label scene_lib T,
                   (if cell T 383 3 \<ge> heat_thresh_high self1 then [scene_bbox] else []))"
    using l3
    by (simp add: extract_regions_def np_copy_heat_def new_heat_def set_heat_def Let_def
          nth_append T[symmetric] hl st4_def)
  let ?bbs = "if cell T 383 3 \<ge> heat_thresh_high self1 then [scene_bbox] else []"
  have det: "find_cars_detect scene_lib self st 0 single =
               Inr (st4, self1, (scene_windows, scene_scores), (?c, fz, length (heats st3)),
                    label scene_lib T, ?bbs)"
    by (simp add: find_cars_detect_def s m ig ex)
  obtain st5 ret where vz: "visualize scene_lib self1 st4 0 fz ?bbs scene_windows = (st5, ret)"
    by (cases "visualize scene_lib self1 st4 0 fz ?bbs scene_windows") auto
  have g: "grows st4 st5" using vz by (rule visualize_grows(1))
  define F where "F = \<lparr>f_store = st5, f_self = self1, f_windows = scene_windows,
       f_window_scores = scene_scores, f_current_heatmap = ?c, f_heatmap = fz,
       f_heat_thresh_low = heat_thresh_low self1, f_heat_thresh_high = heat_thresh_high self1,
       f_heatmap_thresh = length (heats st3), f_labels = label scene_lib T,
       f_bboxes = ?bbs, f_ret_img = ret\<rparr>"
  have fr: "find_cars_frame scene_lib self st 0 single = Inr F"
    by (simp add: find_cars_frame_def det vz F_def)
  have c4: "?c < length (heats st4)" "heats st4 ! ?c = scene_heat"
    by (simp_all add: st4_def st3_def st2_def nth_append)
  have f4: "fz < length (heats st4)" "heats st4 ! fz = scene_heat"
    using l3 by (simp_all add: st4_def nth_append)
  have t4: "length (heats st3) < length (heats st4)" "heats st4 ! length (heats st3) = T"
    by (simp_all add: st4_def)
  show ?thesis
  proof (rule that[OF fr])
    show "f_self F = self1" "f_windows F = scene_windows" "f_window_scores F = scene_scores"
      "f_labels F = label scene_lib T" "f_bboxes F = ?bbs"
      by (simp_all add: F_def)
    show "heats (f_store F) ! f_current_heatmap F = scene_heat"
      using grows_heat[OF g c4(1)] c4(2) by (simp add: F_def)
    show "heats (f_store F) ! f_heatmap F = scene_heat"
      using grows_heat[OF g f4(1)] f4(2) by (simp add: F_def)
    show "heats (f_store F) ! f_heatmap_thresh F = T"
      using grows_heat[OF g t4(1)] t4(2) by (simp add: F_def)
  qed
qed

subsection \<open>Construction\<close>

text \<open>
  Claim C7, as amended. The constructor validates nothing and never fails: it stores
  the history capacity it is given, whatever it is, and installs the three fixed
  search settings, whose overlaps are in \<open>[0, 1)\<close> and whose scales are positive.
\<close>

theorem CarFinder_init_accepts_every_configuration:
  "CarFinder_init classifier builder visualization history low high =
     Inr (projr (CarFinder_init classifier builder visualization history low high))
   \<and> heatmap_history (projr (CarFinder_init classifier builder visualization history low high)) = history
   \<and> search_settings (projr (CarFinder_init classifier builder visualization history low high)) =
       [(380, 500, 1, 6 / 8), (380, 550, 13 / 10, 5 / 8), (380, 600, 22 / 10, 6 / 8)]
   \<and> list_all (\<lambda>(ystart, ystop, scale, overlap). 0 \<le> overlap \<and> overlap < 1 \<and> 0 < scale)
        (search_settings (projr (CarFinder_init classifier builder visualization history low high)))"
  by (simp add: CarFinder_init_def)

text \<open>
  The claim as it was worded fails: a history capacity of 0, or of -3, is accepted at
  construction.
\<close>

theorem CarFinder_init_zero_history_counterexample:
  "\<not> isl (CarFinder_init scene_clf scene_fvb ''cars'' 0 (1 / 10) (1 / 4))
   \<and> heatmap_history (projr (CarFinder_init scene_clf scene_fvb ''cars'' 0 (1 / 10) (1 / 4))) = 0
   \<and> \<not> isl (CarFinder_init scene_clf scene_fvb ''cars'' (- 3) (1 / 10) (1 / 4))"
  by (simp add: CarFinder_init_def)

subsection \<open>The step of the window search\<close>









subsection \<open>Calls on the scene\<close>

lemma scene_add_to_history:
  assumes "h = 16 \<or> h = 1 \<or> h = 0"
  shows "nlast_heatmaps (add_to_history (scene_finder v h lo hi) 0) = [0]"
    and "thresh_low (add_to_history (scene_finder v h lo hi) 0) = lo"
    and "thresh_high (add_to_history (scene_finder v h lo hi) 0) = hi"
proof -
  show "nlast_heatmaps (add_to_history (scene_finder v h lo hi) 0) = [0]"
    using assms
    by (auto simp: add_to_history_def scene_finder_fields slice_from_def slice_bound_def Let_def)
  show "thresh_low (add_to_history (scene_finder v h lo hi) 0) = lo"
    by (simp add: add_to_history_def scene_finder_fields Let_def)
  show "thresh_high (add_to_history (scene_finder v h lo hi) 0) = hi"
    by (simp add: add_to_history_def scene_finder_fields Let_def)
qed

lemma scene_finder_frame:
  assumes "hi = 1 / 4"
    and "single \<or> h = 16 \<or> h = 1 \<or> h = 0"
    and "lo \<le> 3 / 8"
    and "self1 = (if single then scene_finder v h lo hi else add_to_history (scene_finder v h lo hi) 0)"
    and "T = zero_below scene_heat (heat_thresh_low self1) scene_heat"
  obtains F where "find_cars_frame scene_lib (scene_finder v h lo hi) scene_store 0 single = Inr F"
    and "f_self F = self1" and "f_windows F = scene_windows" and "f_window_scores F = scene_scores"
    and "heats (f_store F) ! f_current_heatmap F = scene_heat"
    and "heats (f_store F) ! f_heatmap F = scene_heat"
    and "heats (f_store F) ! f_heatmap_thresh F = T"
    and "f_labels F = label scene_lib T"
    and "f_bboxes F = (if cell T 383 3 \<ge> heat_thresh_high self1 then [scene_bbox] else [])"
proof -
  have a: "self1 = (if single then scene_finder v h lo hi
                 else add_to_history (scene_finder v h lo hi) (length (heats scene_store)))"
    using assms(4) by (simp add: scene_store_def)
  have b: "single \<or> nlast_heatmaps self1 = [length (heats scene_store)]"
  proof (cases single)
    case True
    then show ?thesis by simp
  next
    case False
    then have "h = 16 \<or> h = 1 \<or> h = 0" using assms(2) by simp
    then have "nlast_heatmaps (add_to_history (scene_finder v h lo hi) 0) = [0]"
      by (rule scene_add_to_history(1))
    then show ?thesis using False assms(4) by (simp add: scene_store_def)
  qed
  have c: "heat_thresh_low self1 \<le> 3 / 8"
  proof (cases single)
    case True
    then show ?thesis using assms(4) by (simp add: heat_thresh_low_def scene_finder_fields)
  next
    case False
    then have h: "h = 16 \<or> h = 1 \<or> h = 0" using assms(2) by simp
    show ?thesis using False assms(3,4)
      by (simp add: heat_thresh_low_def scene_add_to_history[OF h])
  qed
  have i: "0 < length (images scene_store)" "images scene_store ! 0 = ((389, 9), [])"
    by (simp_all add: scene_store_def)
  have m: "max_frame_heat (scene_finder v h lo hi) = 3 / 8"
    by (simp add: scene_finder_fields assms(1))
  show ?thesis
    by (rule scene_frame[OF scene_finder_fields(9) scene_finder_fields(8) scene_finder_fields(2)
              scene_finder_fields(1) m i a b c assms(5)])
       (rule that; assumption)
qed

text \<open>A new finder with the default thresholds, run on one still image.\<close>

lemma scene_single:
  obtains F where
    "find_cars_frame scene_lib (scene_finder ''cars'' 16 (1 / 10) (1 / 4)) scene_store 0 True = Inr F"
    and "f_self F = scene_finder ''cars'' 16 (1 / 10) (1 / 4)"
    and "f_windows F = scene_windows" and "f_window_scores F = scene_scores"
    and "heats (f_store F) ! f_current_heatmap F = scene_heat"
    and "heats (f_store F) ! f_heatmap F = scene_heat"
    and "cell (heats (f_store F) ! f_heatmap_thresh F) 383 3 = 27 / 100"
    and "label_bbox (fst (f_labels F)) 1 = Inr scene_bbox"
    and "snd (f_labels F) = 1"
proof -
  let ?self = "scene_finder ''cars'' 16 (1 / 10) (1 / 4)"
  define T where "T = zero_below scene_heat (heat_thresh_low ?self) scene_heat"
  have low: "heat_thresh_low ?self = 0" by (simp add: heat_thresh_low_def scene_finder_fields)
  have Tcell: "\<And>y x. cell T y x = (if cell scene_heat y x < 0 then 0 else cell scene_heat y x)"
    by (simp add: T_def zero_below_def low)
  have Tshape: "nrows T = 389" "ncols T = 9" by (simp_all add: T_def zero_below_def scene_heat_shape)
  have Tin: "\<And>y x. cell T y x \<noteq> 0 \<Longrightarrow> x \<le> 7 \<and> 380 \<le> y \<and> y \<le> 387"
    by (auto simp: Tcell scene_heat_cell split: if_splits)
  have Tne: "cell T 380 7 \<noteq> 0" "cell T 387 0 \<noteq> 0"
    by (simp_all add: Tcell scene_heat_cell)
  have bb: "label_bbox (fst (label scene_lib T)) 1 = Inr scene_bbox"
    using Tshape Tin Tne by (rule scene_regions(1))
  obtain F where F: "find_cars_frame scene_lib ?self scene_store 0 True = Inr F"
    "f_self F = ?self" "f_windows F = scene_windows" "f_window_scores F = scene_scores"
    "heats (f_store F) ! f_current_heatmap F = scene_heat"
    "heats (f_store F) ! f_heatmap F = scene_heat"
    "heats (f_store F) ! f_heatmap_thresh F = T"
    "f_labels F = label scene_lib T"
    by (rule scene_finder_frame[where single=True and v="''cars''" and h=16 and lo="1 / 10"
              and hi="1 / 4" and ?self1.0="?self" and T=T]) (simp_all add: T_def)
  show ?thesis
  proof (rule that[OF F(1-6)])
    show "cell (heats (f_store F) ! f_heatmap_thresh F) 383 3 = 27 / 100"
      by (simp add: F(7) Tcell scene_heat_cell)
    show "label_bbox (fst (f_labels F)) 1 = Inr scene_bbox" by (simp add: F(8) bb)
    show "snd (f_labels F) = 1" by (simp add: F(8) scene_lib_fields)
  qed
qed

subsection \<open>Thresholds\<close>

text \<open>
  Claim C1. The thresholds are the configured ones times the length of the history
  (\<open>find_cars_frame_self\<close>), and in streaming mode the history is what is fused
  (\<open>find_cars_frame_fused\<close>). With \<open>single\<close> the fused heatmap is the one heatmap of
  the frame, and the claim wants the factor 1; the code takes the length of the
  history, which a still image does not enter. For a new finder with the default
  thresholds 0.1 and 0.25 the factor is 0 and both effective thresholds are 0.
\<close>

theorem single_mode_thresholds_use_history_length:
  "\<not> isl (find_cars_frame scene_lib (scene_finder ''cars'' 16 (1 / 10) (1 / 4)) scene_store 0 True)
   \<and> CarFinder_default scene_clf scene_fvb ''cars'' = Inr (scene_finder ''cars'' 16 (1 / 10) (1 / 4))
   \<and> thresh_low (scene_finder ''cars'' 16 (1 / 10) (1 / 4)) = 1 / 10
   \<and> thresh_high (scene_finder ''cars'' 16 (1 / 10) (1 / 4)) = 1 / 4
   \<and> f_heat_thresh_low
        (projr (find_cars_frame scene_lib (scene_finder ''cars'' 16 (1 / 10) (1 / 4)) scene_store 0 True)) = 0
   \<and> f_heat_thresh_high
        (projr (find_cars_frame scene_lib (scene_finder ''cars'' 16 (1 / 10) (1 / 4)) scene_store 0 True)) = 0"
proof -
  let ?self = "scene_finder ''cars'' 16 (1 / 10) (1 / 4)"
  obtain F where F: "find_cars_frame scene_lib ?self scene_store 0 True = Inr F"
    and s: "f_self F = ?self"
    by (rule scene_single)
  have lo: "f_heat_thresh_low F = 0"
    using find_cars_frame_self(2)[OF F] by (simp add: s scene_finder_fields)
  have hi: "f_heat_thresh_high F = 0"
    using find_cars_frame_self(3)[OF F] by (simp add: s scene_finder_fields)
  have d: "CarFinder_default scene_clf scene_fvb ''cars'' = Inr ?self"
    by (simp add: CarFinder_default_def scene_finder_def CarFinder_init_def)
  show ?thesis using lo hi d by (simp add: F scene_finder_fields)
qed

subsection \<open>Which regions are kept\<close>

text \<open>The first frame of a stream, for a finder with the low threshold \<open>lo\<close>.\<close>

lemma scene_stream_first:
  assumes "lo \<le> 3 / 8"
  obtains F where
    "find_cars_frame scene_lib (scene_finder ''cars'' 16 lo (1 / 4)) scene_store 0 False = Inr F"
    and "f_windows F = scene_windows" and "f_window_scores F = scene_scores"
    and "heats (f_store F) ! f_current_heatmap F = scene_heat"
    and "heats (f_store F) ! f_heatmap F = scene_heat"
    and "f_heat_thresh_low F = lo" and "f_heat_thresh_high F = 1 / 4"
    and "label_bbox (fst (f_labels F)) 1 = Inr scene_bbox"
    and "snd (f_labels F) = 1"
    and "f_bboxes F = (if 27 / 100 < lo then [] else [scene_bbox])"
proof -
  let ?self = "scene_finder ''cars'' 16 lo (1 / 4)"
  let ?self1 = "add_to_history ?self 0"
  have h: "(16::int) = 16 \<or> (16::int) = 1 \<or> (16::int) = 0" by simp
  note a = scene_add_to_history[OF h, of "''cars''" lo "1 / 4"]
  have low: "heat_thresh_low ?self1 = lo" by (simp add: heat_thresh_low_def a)
  have high: "heat_thresh_high ?self1 = 1 / 4" by (simp add: heat_thresh_high_def a)
  define T where "T = zero_below scene_heat (heat_thresh_low ?self1) scene_heat"
  have Tcell: "\<And>y x. cell T y x = (if cell scene_heat y x < lo then 0 else cell scene_heat y x)"
    by (simp add: T_def zero_below_def low)
  have Tshape: "nrows T = 389" "ncols T = 9" by (simp_all add: T_def zero_below_def scene_heat_shape)
  have Tin: "\<And>y x. cell T y x \<noteq> 0 \<Longrightarrow> x \<le> 7 \<and> 380 \<le> y \<and> y \<le> 387"
    by (auto simp: Tcell scene_heat_cell split: if_splits)
  have Tne: "cell T 380 7 \<noteq> 0" "cell T 387 0 \<noteq> 0"
    using assms by (simp_all add: Tcell scene_heat_cell)
  have bb: "label_bbox (fst (label scene_lib T)) 1 = Inr scene_bbox"
    using Tshape Tin Tne by (rule scene_regions(1))
  have c: "cell T 383 3 = (if 27 / 100 < lo then 0 else 27 / 100)" by (simp add: Tcell scene_heat_cell)
  obtain F where F: "find_cars_frame scene_lib ?self scene_store 0 False = Inr F"
    "f_self F = ?self1" "f_windows F = scene_windows" "f_window_scores F = scene_scores"
    "heats (f_store F) ! f_current_heatmap F = scene_heat"
    "heats (f_store F) ! f_heatmap F = scene_heat"
    "heats (f_store F) ! f_heatmap_thresh F = T"
    "f_labels F = label scene_lib T"
    "f_bboxes F = (if cell T 383 3 \<ge> heat_thresh_high ?self1 then [scene_bbox] else [])"
    by (rule scene_finder_frame[where single=False and v="''cars''" and h=16 and lo=lo
              and hi="1 / 4" and ?self1.0="?self1" and T=T])
       (use assms in \<open>simp_all add: T_def\<close>)
  have tl: "f_heat_thresh_low F = lo"
    using find_cars_frame_self(2)[OF F(1)] low by (simp add: F(2) heat_thresh_low_def)
  have th: "f_heat_thresh_high F = 1 / 4"
    using find_cars_frame_self(3)[OF F(1)] high by (simp add: F(2) heat_thresh_high_def)
  show ?thesis
  proof (rule that[OF F(1) F(3-6) tl th])
    show "label_bbox (fst (f_labels F)) 1 = Inr scene_bbox" by (simp add: F(8) bb)
    show "snd (f_labels F) = 1" by (simp add: F(8) scene_lib_fields)
    show "f_bboxes F = (if 27 / 100 < lo then [] else [scene_bbox])" by (simp add: F(9) c high)
  qed
qed

text \<open>
  Claim C2, as amended. The bounding box of a labelled component is kept if and only
  if the thresholded heatmap, which is the fused heatmap with the cells below the low
  threshold set to 0 and is the array \<open>hot_label_regions\<close> is given, has at least the
  high threshold at the centre of the box. When the low threshold is at most the high
  one and the high one is positive, this is the same as the test on the fused
  heatmap.
\<close>

theorem region_kept_iff_thresholded_center_hot:
  assumes "find_cars_frame lib self st img single = Inr f"
    and "1 \<le> label_id" and "label_id \<le> snd (f_labels f)"
    and "label_bbox (fst (f_labels f)) label_id = Inr bbox"
  shows "(bbox \<in> set (f_bboxes f) \<longleftrightarrow>
            cell (heats (f_store f) ! f_heatmap_thresh f) (center_row bbox) (center_col bbox)
              \<ge> f_heat_thresh_high f)
       \<and> cell (heats (f_store f) ! f_heatmap_thresh f) (center_row bbox) (center_col bbox) =
           (if cell (heats (f_store f) ! f_heatmap f) (center_row bbox) (center_col bbox)
                 < f_heat_thresh_low f
            then 0
            else cell (heats (f_store f) ! f_heatmap f) (center_row bbox) (center_col bbox))
       \<and> (f_heat_thresh_low f \<le> f_heat_thresh_high f \<and> 0 < f_heat_thresh_high f \<longrightarrow>
            (bbox \<in> set (f_bboxes f) \<longleftrightarrow>
               cell (heats (f_store f) ! f_heatmap f) (center_row bbox) (center_col bbox)
                 \<ge> f_heat_thresh_high f))"
proof -
  note facts = find_cars_frame_fused[OF assms(1)]
  let ?t = "cell (heats (f_store f) ! f_heatmap_thresh f) (center_row bbox) (center_col bbox)"
  let ?v = "cell (heats (f_store f) ! f_heatmap f) (center_row bbox) (center_col bbox)"
  have "set (f_bboxes f) =
       {b. \<exists>i. 1 \<le> i \<and> i \<le> snd (f_labels f) \<and> label_bbox (fst (f_labels f)) i = Inr b \<and>
               cell (heats (f_store f) ! f_heatmap_thresh f) (center_row b) (center_col b)
                 \<ge> f_heat_thresh_high f}"
    using facts(6) by (rule hot_label_regions_set)
  then have kept: "bbox \<in> set (f_bboxes f) \<longleftrightarrow> ?t \<ge> f_heat_thresh_high f"
    using assms(2-4) by auto
  have thr: "?t = (if ?v < f_heat_thresh_low f then 0 else ?v)"
    by (simp add: facts(4) zero_below_def)
  have "f_heat_thresh_low f \<le> f_heat_thresh_high f \<and> 0 < f_heat_thresh_high f \<longrightarrow>
          (?t \<ge> f_heat_thresh_high f \<longleftrightarrow> ?v \<ge> f_heat_thresh_high f)"
    unfolding thr by auto
  then show ?thesis using kept thr by simp
qed

theorem region_kept_iff_thresholded_center_hot_witness:
  "\<not> isl (find_cars_frame scene_lib (scene_finder ''cars'' 16 (1 / 10) (1 / 4)) scene_store 0 False)
   \<and> label_bbox (fst (f_labels (projr
        (find_cars_frame scene_lib (scene_finder ''cars'' 16 (1 / 10) (1 / 4)) scene_store 0 False)))) 1
       = Inr scene_bbox
   \<and> scene_bbox \<in> set (f_bboxes (projr
        (find_cars_frame scene_lib (scene_finder ''cars'' 16 (1 / 10) (1 / 4)) scene_store 0 False)))
   \<and> cell (heats (f_store (projr
              (find_cars_frame scene_lib (scene_finder ''cars'' 16 (1 / 10) (1 / 4)) scene_store 0 False)))
             ! f_heatmap_thresh (projr
              (find_cars_frame scene_lib (scene_finder ''cars'' 16 (1 / 10) (1 / 4)) scene_store 0 False)))
            (center_row scene_bbox) (center_col scene_bbox) = 27 / 100"
proof -
  have lo: "(1 / 10 :: real) \<le> 3 / 8" by simp
  obtain F where F: "find_cars_frame scene_lib (scene_finder ''cars'' 16 (1 / 10) (1 / 4)) scene_store 0 False = Inr F"
    and fz: "heats (f_store F) ! f_heatmap F = scene_heat"
    and tl: "f_heat_thresh_low F = 1 / 10"
    and th: "f_heat_thresh_high F = 1 / 4"
    and bb: "label_bbox (fst (f_labels F)) 1 = Inr scene_bbox"
    and n: "snd (f_labels F) = 1"
    by (rule scene_stream_first[OF lo])
  have one: "(1::int) \<le> 1" and le: "1 \<le> snd (f_labels F)" by (simp_all add: n)
  note t = region_kept_iff_thresholded_center_hot[OF F one le bb]
  have v: "cell (heats (f_store F) ! f_heatmap F) (center_row scene_bbox) (center_col scene_bbox) = 27 / 100"
    by (simp add: fz scene_centers scene_heat_cell)
  have c: "cell (heats (f_store F) ! f_heatmap_thresh F) (center_row scene_bbox) (center_col scene_bbox) = 27 / 100"
    using t by (simp add: v tl)
  have m: "scene_bbox \<in> set (f_bboxes F)"
    using t by (simp add: v tl th)
  show ?thesis using bb c m by (simp add: F)
qed

text \<open>
  The claim as it was worded, with the fused heatmap, fails for a finder whose low
  threshold 0.3 is above its high threshold 0.25. In the first frame of the stream
  the fused heatmap holds 0.27 at the centre (383, 3) of the component's box, which
  is at least 0.25, but the cell is below 0.3 and is set to 0 in the thresholded
  heatmap, so the box is dropped.
\<close>

theorem region_center_read_after_thresholding_counterexample:
  "\<not> isl (find_cars_frame scene_lib (scene_finder ''cars'' 16 (3 / 10) (1 / 4)) scene_store 0 False)
   \<and> 1 \<le> snd (f_labels (projr
        (find_cars_frame scene_lib (scene_finder ''cars'' 16 (3 / 10) (1 / 4)) scene_store 0 False)))
   \<and> label_bbox (fst (f_labels (projr
        (find_cars_frame scene_lib (scene_finder ''cars'' 16 (3 / 10) (1 / 4)) scene_store 0 False)))) 1
       = Inr scene_bbox
   \<and> f_heat_thresh_high (projr
        (find_cars_frame scene_lib (scene_finder ''cars'' 16 (3 / 10) (1 / 4)) scene_store 0 False))
       \<le> cell (heats (f_store (projr
              (find_cars_frame scene_lib (scene_finder ''cars'' 16 (3 / 10) (1 / 4)) scene_store 0 False)))
             ! f_heatmap (projr
              (find_cars_frame scene_lib (scene_finder ''cars'' 16 (3 / 10) (1 / 4)) scene_store 0 False)))
            (center_row scene_bbox) (center_col scene_bbox)
   \<and> scene_bbox \<notin> set (f_bboxes (projr
        (find_cars_frame scene_lib (scene_finder ''cars'' 16 (3 / 10) (1 / 4)) scene_store 0 False)))"
proof -
  have lo: "(3 / 10 :: real) \<le> 3 / 8" by simp
  obtain F where F: "find_cars_frame scene_lib (scene_finder ''cars'' 16 (3 / 10) (1 / 4)) scene_store 0 False = Inr F"
    and fz: "heats (f_store F) ! f_heatmap F = scene_heat"
    and th: "f_heat_thresh_high F = 1 / 4"
    and bb: "label_bbox (fst (f_labels F)) 1 = Inr scene_bbox"
    and n: "snd (f_labels F) = 1"
    and e: "f_bboxes F = (if 27 / 100 < (3 / 10 :: real) then [] else [scene_bbox])"
    by (rule scene_stream_first[OF lo])
  show ?thesis
    using e by (simp add: F fz th bb n scene_centers scene_heat_cell)
qed

subsection \<open>The cap on the heat of a frame\<close>

lemma make_heatmap_capped:
  "heats (fst (make_heatmap lib self st img ws scores)) ! snd (make_heatmap lib self st img ws scores) =
     cap_heat (max_frame_heat self) (gen_heatmap ws scores (img_shape lib (images st ! img)))"
  by (simp add: make_heatmap_def new_heat_def set_heat_def Let_def)

text \<open>
  Claim C5. After the capping of lines 118-119 no cell of the frame's heatmap is above
  \<open>max_frame_heat\<close>, whatever the raw sum of the scores at the cell; a cell whose raw
  value is at most the cap keeps it, and a cell whose raw value is above the cap holds
  the cap. The array \<open>find_cars\<close> holds as the frame's heatmap when it returns is this
  capped heatmap.
\<close>

theorem frame_heat_is_capped:
  "cell (heats (fst (make_heatmap lib self st img ws scores)) ! snd (make_heatmap lib self st img ws scores)) y x
     \<le> max_frame_heat self
   \<and> (cell (gen_heatmap ws scores (img_shape lib (images st ! img))) y x \<le> max_frame_heat self \<longrightarrow>
        cell (heats (fst (make_heatmap lib self st img ws scores)) ! snd (make_heatmap lib self st img ws scores)) y x =
          cell (gen_heatmap ws scores (img_shape lib (images st ! img))) y x)
   \<and> (max_frame_heat self < cell (gen_heatmap ws scores (img_shape lib (images st ! img))) y x \<longrightarrow>
        cell (heats (fst (make_heatmap lib self st img ws scores)) ! snd (make_heatmap lib self st img ws scores)) y x =
          max_frame_heat self)
   \<and> (find_cars_frame lib self st img single = Inr f \<and> img < length (images st) \<longrightarrow>
        heats (f_store f) ! f_current_heatmap f =
          heats (fst (make_heatmap lib self st img (f_windows f) (f_window_scores f)))
            ! snd (make_heatmap lib self st img (f_windows f) (f_window_scores f)))"
proof -
  have a: "cell (heats (fst (make_heatmap lib self st img ws scores)) ! snd (make_heatmap lib self st img ws scores)) y x =
       (if cell (gen_heatmap ws scores (img_shape lib (images st ! img))) y x > max_frame_heat self
        then max_frame_heat self
        else cell (gen_heatmap ws scores (img_shape lib (images st ! img))) y x)"
    by (simp add: make_heatmap_capped cap_heat_def)
  have b: "find_cars_frame lib self st img single = Inr f \<and> img < length (images st) \<longrightarrow>
        heats (f_store f) ! f_current_heatmap f =
          heats (fst (make_heatmap lib self st img (f_windows f) (f_window_scores f)))
            ! snd (make_heatmap lib self st img (f_windows f) (f_window_scores f))"
  proof (intro impI, elim conjE)
    assume "find_cars_frame lib self st img single = Inr f" and "img < length (images st)"
    then have "heats (f_store f) ! f_current_heatmap f =
        cap_heat (max_frame_heat self)
          (gen_heatmap (f_windows f) (f_window_scores f) (img_shape lib (images st ! img)))"
      by (rule find_cars_frame_current(3))
    then show "heats (f_store f) ! f_current_heatmap f =
          heats (fst (make_heatmap lib self st img (f_windows f) (f_window_scores f)))
            ! snd (make_heatmap lib self st img (f_windows f) (f_window_scores f))"
      by (simp add: make_heatmap_capped)
  qed
  show ?thesis using a b by simp
qed

theorem frame_heat_is_capped_witness:
  "\<not> isl (find_cars_frame scene_lib (scene_finder ''cars'' 16 (1 / 10) (1 / 4)) scene_store 0 False)
   \<and> max_frame_heat (scene_finder ''cars'' 16 (1 / 10) (1 / 4)) = 3 / 8
   \<and> cell (gen_heatmap scene_windows scene_scores (389, 9)) 383 5 = 1
   \<and> cell (gen_heatmap scene_windows scene_scores (389, 9)) 383 3 = 27 / 100
   \<and> cell (heats (f_store (projr
              (find_cars_frame scene_lib (scene_finder ''cars'' 16 (1 / 10) (1 / 4)) scene_store 0 False)))
             ! f_current_heatmap (projr
              (find_cars_frame scene_lib (scene_finder ''cars'' 16 (1 / 10) (1 / 4)) scene_store 0 False)))
            383 5 = 3 / 8
   \<and> cell (heats (f_store (projr
              (find_cars_frame scene_lib (scene_finder ''cars'' 16 (1 / 10) (1 / 4)) scene_store 0 False)))
             ! f_current_heatmap (projr
              (find_cars_frame scene_lib (scene_finder ''cars'' 16 (1 / 10) (1 / 4)) scene_store 0 False)))
            383 3 = 27 / 100"
proof -
  let ?self = "scene_finder ''cars'' 16 (1 / 10) (1 / 4)"
  have lo: "(1 / 10 :: real) \<le> 3 / 8" by simp
  obtain F where F: "find_cars_frame scene_lib ?self scene_store 0 False = Inr F"
    and w: "f_windows F = scene_windows" "f_window_scores F = scene_scores"
    by (rule scene_stream_first[OF lo])
  have m: "max_frame_heat ?self = 3 / 8" by (simp add: scene_finder_fields)
  have shp: "img_shape scene_lib (images scene_store ! 0) = (389, 9)"
    by (simp add: scene_lib_fields scene_store_def)
  have v: "0 < length (images scene_store)" by (simp add: scene_store_def)
  have r1: "cell (gen_heatmap scene_windows scene_scores (389, 9)) 383 5 = 1"
    by (simp add: gen_heatmap_cell scene_windows_def scene_scores_def in_slices_def slice_bound_def)
  have r2: "cell (gen_heatmap scene_windows scene_scores (389, 9)) 383 3 = 27 / 100"
    by (simp add: gen_heatmap_cell scene_windows_def scene_scores_def in_slices_def slice_bound_def)
  note t1 = frame_heat_is_capped[of scene_lib ?self scene_store 0 scene_windows scene_scores 383 5 False F]
  note t2 = frame_heat_is_capped[of scene_lib ?self scene_store 0 scene_windows scene_scores 383 3 False F]
  have e: "heats (f_store F) ! f_current_heatmap F =
      heats (fst (make_heatmap scene_lib ?self scene_store 0 scene_windows scene_scores))
        ! snd (make_heatmap scene_lib ?self scene_store 0 scene_windows scene_scores)"
    using t1 F v unfolding w by blast
  have c1: "cell (heats (f_store F) ! f_current_heatmap F) 383 5 = 3 / 8"
    unfolding e using t1 by (simp add: shp m r1)
  have c2: "cell (heats (f_store F) ! f_current_heatmap F) 383 3 = 27 / 100"
    unfolding e using t2 by (simp add: shp m r2)
  show ?thesis using m r1 r2 c1 c2 by (simp add: F)
qed

subsection \<open>The caller's image\<close>

lemma draw_loop_image:
  "a < length (images st) \<Longrightarrow>
     images (draw_loop lib st a bbs color thick) ! a =
       fold (\<lambda>b im. cv2_rectangle lib im (fst b) (snd b) color thick) bbs (images st ! a)"
  by (induction lib st a bbs color thick rule: draw_loop.induct) (simp_all add: set_image_def)

lemma visualize_cars_image:
  assumes "visualize lib self st img fused bbs ws = (st', ret)" and "viz self \<noteq> ''windows''"
  shows "images st' ! ret =
           fold (\<lambda>b im. cv2_rectangle lib im (fst b) (snd b) (0, 255, 0) 6) bbs (images st ! img)"
proof -
  let ?st1 = "st\<lparr>images := images st @ [images st ! img]\<rparr>"
  from assms have r: "ret = length (images st)"
    and s: "st' = draw_loop lib ?st1 (length (images st)) bbs (0, 255, 0) 6"
    by (auto simp: visualize_def np_copy_image_def new_image_def Let_def)
  show ?thesis unfolding r s by (simp add: draw_loop_image)
qed

lemma find_cars_frame_cars_image:
  assumes "find_cars_frame lib self st img single = Inr f" and "img < length (images st)"
    and "viz self \<noteq> ''windows''"
  shows "images (f_store f) ! f_ret_img f =
           fold (\<lambda>b im. cv2_rectangle lib im (fst b) (snd b) (0, 255, 0) 6) (f_bboxes f) (images st ! img)"
proof -
  from assms(1) obtain st1 st2 st3 st4 where
    a: "search_all lib self st img (search_settings self) ([], []) = Inr (st1, f_windows f, f_window_scores f)"
    and b: "make_heatmap lib self st1 img (f_windows f) (f_window_scores f) = (st2, f_current_heatmap f)"
    and c: "integrate self st2 (f_current_heatmap f) single = Inr (st3, f_self f, f_heatmap f)"
    and d: "extract_regions lib (f_self f) st3 (f_heatmap f) = Inr (st4, f_heatmap_thresh f, f_labels f, f_bboxes f)"
    and e: "visualize lib (f_self f) st4 img (f_heatmap f) (f_bboxes f) (f_windows f) = (f_store f, f_ret_img f)"
    by (rule find_cars_frame_stages)
  have g01: "grows st st1" using search_all_store[OF a] by simp
  have g12: "grows st1 st2" using b by (rule make_heatmap_grows)
  have g23: "grows st2 st3" using c by (rule integrate_grows)
  have g34: "grows st3 st4" using d by (rule extract_regions_grows)
  have g: "grows st st4"
    by (rule grows_trans[OF g01 grows_trans[OF g12 grows_trans[OF g23 g34]]])
  have i: "images st4 ! img = images st ! img" using g assms(2) by (rule grows_image)
  have v: "viz (f_self f) \<noteq> ''windows''"
    using find_cars_frame_self(1)[OF assms(1)] assms(3)
    by (simp add: add_to_history_def Let_def split: if_splits)
  show ?thesis using visualize_cars_image[OF e v] i by simp
qed

text \<open>
  Claim C9. A call of \<open>find_cars\<close> that returns leaves the frame it was given as it
  was: the image at the caller's address has the same contents after the call, and
  the image returned is another array. The window search slices a copy (line 171) and
  every rectangle is drawn on a copy (lines 141-151).
\<close>

theorem find_cars_leaves_frame_unchanged:
  assumes "find_cars lib self st img single = Inr (st', self', ret_img)"
    and "img < length (images st)"
  shows "images st' ! img = images st ! img \<and> ret_img \<noteq> img"
proof -
  from assms(1) obtain f where
    f: "find_cars_frame lib self st img single = Inr f"
    and r: "st' = f_store f" "ret_img = f_ret_img f"
    by (auto simp: find_cars_def split: sum.splits)
  have "grows st st'" using f r(1) by (simp add: find_cars_frame_grows)
  then have "images st' ! img = images st ! img" using assms(2) by (rule grows_image)
  moreover have "length (images st) \<le> ret_img" using f r(2) by (simp add: find_cars_frame_ret)
  ultimately show ?thesis using assms(2) by simp
qed

text \<open>
  On the scene the returned image carries the box of the detection and the frame
  carries nothing.
\<close>

theorem find_cars_leaves_frame_unchanged_witness:
  "\<not> isl (find_cars scene_lib (scene_finder ''cars'' 16 (1 / 10) (1 / 4)) scene_store 0 False)
   \<and> images scene_store ! 0 = ((389, 9), [])
   \<and> images (fst (projr (find_cars scene_lib (scene_finder ''cars'' 16 (1 / 10) (1 / 4)) scene_store 0 False))) ! 0
       = ((389, 9), [])
   \<and> snd (snd (projr (find_cars scene_lib (scene_finder ''cars'' 16 (1 / 10) (1 / 4)) scene_store 0 False))) \<noteq> 0
   \<and> images (fst (projr (find_cars scene_lib (scene_finder ''cars'' 16 (1 / 10) (1 / 4)) scene_store 0 False)))
        ! snd (snd (projr (find_cars scene_lib (scene_finder ''cars'' 16 (1 / 10) (1 / 4)) scene_store 0 False)))
       = ((389, 9), [scene_bbox])"
proof -
  let ?self = "scene_finder ''cars'' 16 (1 / 10) (1 / 4)"
  have lo: "(1 / 10 :: real) \<le> 3 / 8" by simp
  obtain F where F: "find_cars_frame scene_lib ?self scene_store 0 False = Inr F"
    and bbs: "f_bboxes F = (if 27 / 100 < (1 / 10 :: real) then [] else [scene_bbox])"
    by (rule scene_stream_first[OF lo])
  have fc: "find_cars scene_lib ?self scene_store 0 False = Inr (f_store F, f_self F, f_ret_img F)"
    by (simp add: find_cars_def F)
  have v: "0 < length (images scene_store)" by (simp add: scene_store_def)
  have i0: "images scene_store ! 0 = ((389, 9), [])" by (simp add: scene_store_def)
  note t = find_cars_leaves_frame_unchanged[OF fc v]
  have vz: "viz ?self \<noteq> ''windows''" by (simp add: scene_finder_fields)
  have drawn: "images (f_store F) ! f_ret_img F = ((389, 9), [scene_bbox])"
    using find_cars_frame_cars_image[OF F v vz] bbs
    by (simp add: i0 scene_lib_fields scene_bbox_def)
  show ?thesis using t drawn by (simp add: fc i0)
qed

subsection \<open>The visualisation mode and the detection\<close>

text \<open>
  The addresses in the history of a finder are arrays of the store: this holds for a
  new finder, whose history is empty, and every call keeps it.
\<close>

lemma find_cars_frame_history_valid:
  assumes "find_cars_frame lib self st img single = Inr f"
    and "list_all (\<lambda>a. a < length (heats st)) (nlast_heatmaps self)"
  shows "list_all (\<lambda>a. a < length (heats (f_store f))) (nlast_heatmaps (f_self f))"
proof -
  from assms(1) obtain st1 st2 st3 st4 where
    a: "search_all lib self st img (search_settings self) ([], []) = Inr (st1, f_windows f, f_window_scores f)"
    and b: "make_heatmap lib self st1 img (f_windows f) (f_window_scores f) = (st2, f_current_heatmap f)"
    and c: "integrate self st2 (f_current_heatmap f) single = Inr (st3, f_self f, f_heatmap f)"
    and d: "extract_regions lib (f_self f) st3 (f_heatmap f) = Inr (st4, f_heatmap_thresh f, f_labels f, f_bboxes f)"
    and e: "visualize lib (f_self f) st4 img (f_heatmap f) (f_bboxes f) (f_windows f) = (f_store f, f_ret_img f)"
    by (rule find_cars_frame_stages)
  have det: "find_cars_detect lib self st img single =
      Inr (st4, f_self f, (f_windows f, f_window_scores f),
           (f_current_heatmap f, f_heatmap f, f_heatmap_thresh f), f_labels f, f_bboxes f)"
    by (simp add: find_cars_detect_def a b c d)
  have v4: "list_all (\<lambda>a. a < length (heats st4)) (nlast_heatmaps (f_self f))"
    using det assms(2) by (rule find_cars_detect_history_valid)
  have "grows st4 (f_store f)" using e by (rule visualize_grows(1))
  then have "length (heats st4) \<le> length (heats (f_store f))" by (rule grows_heats_length)
  then show ?thesis using v4 by (auto simp: list_all_iff)
qed

text \<open>
  Claim C8. For every frame, every finder and either value of \<open>single\<close>, the call with
  the visualisation \<open>'windows'\<close> and the call with any other visualisation fail with
  the same error or return with the same bounding boxes and the same heatmap history.
  The history is the same list of arrays, and, the finder's history lying in the
  store, every array in it has the same contents after both calls. Only the returned
  image and the arrays made for it differ.
\<close>

theorem visualization_keeps_detection:
  "map_sum id (\<lambda>f. (f_bboxes f, nlast_heatmaps (f_self f)))
     (find_cars_frame lib (self\<lparr>viz := ''windows''\<rparr>) st img single) =
   map_sum id (\<lambda>f. (f_bboxes f, nlast_heatmaps (f_self f)))
     (find_cars_frame lib (self\<lparr>viz := v\<rparr>) st img single)
   \<and> (list_all (\<lambda>a. a < length (heats st)) (nlast_heatmaps self) \<longrightarrow>
        map_sum id detection (find_cars_frame lib (self\<lparr>viz := ''windows''\<rparr>) st img single) =
        map_sum id detection (find_cars_frame lib (self\<lparr>viz := v\<rparr>) st img single))"
proof (cases "find_cars_detect lib self st img single")
  case (Inl e)
  then show ?thesis by (simp add: find_cars_frame_detect_error)
next
  case (Inr r)
  obtain st4 s wss addrs lab bbs where r: "r = (st4, s, wss, addrs, lab, bbs)"
    by (cases r) auto
  note d = Inr[unfolded r]
  have a: "map_sum id (\<lambda>f. (f_bboxes f, nlast_heatmaps (f_self f)))
     (find_cars_frame lib (self\<lparr>viz := ''windows''\<rparr>) st img single) =
   map_sum id (\<lambda>f. (f_bboxes f, nlast_heatmaps (f_self f)))
     (find_cars_frame lib (self\<lparr>viz := v\<rparr>) st img single)"
    by (simp add: find_cars_frame_boxes[OF d])
  have b: "list_all (\<lambda>a. a < length (heats st)) (nlast_heatmaps self) \<longrightarrow>
        map_sum id detection (find_cars_frame lib (self\<lparr>viz := ''windows''\<rparr>) st img single) =
        map_sum id detection (find_cars_frame lib (self\<lparr>viz := v\<rparr>) st img single)"
  proof
    assume "list_all (\<lambda>a. a < length (heats st)) (nlast_heatmaps self)"
    then show "map_sum id detection (find_cars_frame lib (self\<lparr>viz := ''windows''\<rparr>) st img single) =
        map_sum id detection (find_cars_frame lib (self\<lparr>viz := v\<rparr>) st img single)"
      by (simp add: find_cars_frame_detection[OF d])
  qed
  show ?thesis using a b by (rule conjI)
qed

theorem visualization_keeps_detection_witness:
  "list_all (\<lambda>a. a < length (heats scene_store)) (nlast_heatmaps (scene_finder ''cars'' 16 (1 / 10) (1 / 4)))
   \<and> map_sum id detection
        (find_cars_frame scene_lib (scene_finder ''cars'' 16 (1 / 10) (1 / 4)) scene_store 0 False)
       = Inr ([scene_bbox], [0], [scene_heat])
   \<and> map_sum id detection
        (find_cars_frame scene_lib (scene_finder ''windows'' 16 (1 / 10) (1 / 4)) scene_store 0 False)
       = Inr ([scene_bbox], [0], [scene_heat])"
proof -
  let ?self = "scene_finder ''cars'' 16 (1 / 10) (1 / 4)"
  have wf: "list_all (\<lambda>a. a < length (heats scene_store)) (nlast_heatmaps ?self)"
    by (simp add: scene_finder_fields)
  have lo: "(1 / 10 :: real) \<le> 3 / 8" by simp
  obtain F where F: "find_cars_frame scene_lib ?self scene_store 0 False = Inr F"
    and cur: "heats (f_store F) ! f_current_heatmap F = scene_heat"
    and bbs: "f_bboxes F = (if 27 / 100 < (1 / 10 :: real) then [] else [scene_bbox])"
    by (rule scene_stream_first[OF lo])
  have c0: "f_current_heatmap F = 0"
    using find_cars_frame_current(1)[OF F] by (simp add: scene_store_def)
  have h: "(16::int) = 16 \<or> (16::int) = 1 \<or> (16::int) = 0" by simp
  have n: "nlast_heatmaps (f_self F) = [0]"
    using find_cars_frame_self(1)[OF F] scene_add_to_history(1)[OF h, of "''cars''" "1 / 10" "1 / 4"]
    by (simp add: scene_store_def)
  have cars: "map_sum id detection (find_cars_frame scene_lib ?self scene_store 0 False)
                = Inr ([scene_bbox], [0], [scene_heat])"
    using cur by (simp add: F detection_def n bbs c0)
  have v1: "?self\<lparr>viz := ''cars''\<rparr> = ?self"
    by (simp add: scene_finder_def CarFinder_init_def)
  have v2: "?self\<lparr>viz := ''windows''\<rparr> = scene_finder ''windows'' 16 (1 / 10) (1 / 4)"
    by (simp add: scene_finder_def CarFinder_init_def)
  note t = visualization_keeps_detection[of scene_lib ?self scene_store 0 False "''cars''"]
  have "map_sum id detection
          (find_cars_frame scene_lib (scene_finder ''windows'' 16 (1 / 10) (1 / 4)) scene_store 0 False)
        = map_sum id detection (find_cars_frame scene_lib ?self scene_store 0 False)"
    using t wf unfolding v1 v2 by blast
  then show ?thesis using wf cars by simp
qed

subsection \<open>The bound on the history\<close>

lemma add_to_history_same_fields:
  "fvb (add_to_history self c) = fvb self"
  "clf (add_to_history self c) = clf self"
  "x_range (add_to_history self c) = x_range self"
  "search_settings (add_to_history self c) = search_settings self"
  "max_frame_heat (add_to_history self c) = max_frame_heat self"
  "thresh_low (add_to_history self c) = thresh_low self"
  "thresh_high (add_to_history self c) = thresh_high self"
  "heatmap_history (add_to_history self c) = heatmap_history self"
  by (simp_all add: add_to_history_def Let_def)

text \<open>Two frames of a stream, for a finder that keeps one heatmap.\<close>

lemma scene_stream_two:
  obtains F1 F2 where
    "find_cars_stream scene_lib (scene_finder ''cars'' 1 (1 / 10) (1 / 4)) scene_store [0, 0] = Inr [F1, F2]"
    and "heats (f_store F2) ! f_current_heatmap F2 = scene_heat"
proof -
  let ?self = "scene_finder ''cars'' 1 (1 / 10) (1 / 4)"
  let ?s1 = "add_to_history ?self 0"
  define T where "T = zero_below scene_heat (heat_thresh_low ?s1) scene_heat"
  obtain F1 where F1: "find_cars_frame scene_lib ?self scene_store 0 False = Inr F1"
    and s1: "f_self F1 = ?s1"
    by (rule scene_finder_frame[where single=False and v="''cars''" and h=1 and lo="1 / 10"
              and hi="1 / 4" and ?self1.0="?s1" and T=T]) (simp_all add: T_def)
  have h: "(1::int) = 16 \<or> (1::int) = 1 \<or> (1::int) = 0" by simp
  note a = scene_add_to_history[OF h, of "''cars''" "1 / 10" "1 / 4"]
  let ?st = "f_store F1"
  let ?c = "length (heats ?st)"
  let ?s2 = "add_to_history ?s1 ?c"
  have g: "grows scene_store ?st" using F1 by (rule find_cars_frame_grows)
  have i1: "0 < length (images ?st)"
    using grows_images_length[OF g] by (auto simp: scene_store_def)
  have i2: "images ?st ! 0 = ((389, 9), [])"
    using grows_image[OF g, of 0] by (simp add: scene_store_def)
  note i = i1 i2
  have n2: "nlast_heatmaps ?s2 = [?c]"
    by (simp add: add_to_history_def Let_def a scene_finder_fields slice_from_def slice_bound_def)
  have low2: "heat_thresh_low ?s2 \<le> 3 / 8"
    by (simp add: heat_thresh_low_def n2 add_to_history_same_fields scene_finder_fields)
  define T2 where "T2 = zero_below scene_heat (heat_thresh_low ?s2) scene_heat"
  have f: "fvb ?s1 = scene_fvb" "clf ?s1 = scene_clf" "x_range ?s1 = (0, 1280)"
    "search_settings ?s1 = [(380, 500, 1, 6 / 8), (380, 550, 13 / 10, 5 / 8), (380, 600, 22 / 10, 6 / 8)]"
    "max_frame_heat ?s1 = 3 / 8"
    by (simp_all add: add_to_history_same_fields scene_finder_fields)
  have e: "?s2 = (if False then ?s1 else add_to_history ?s1 ?c)" by simp
  have hist: "False \<or> nlast_heatmaps ?s2 = [?c]" using n2 by simp
  obtain F2 where F2: "find_cars_frame scene_lib ?s1 ?st 0 False = Inr F2"
    and c2: "heats (f_store F2) ! f_current_heatmap F2 = scene_heat"
    by (rule scene_frame[OF f i1 i2 e hist low2 T2_def])
  have "find_cars_stream scene_lib ?self scene_store [0, 0] = Inr [F1, F2]"
    by (simp add: F1 s1 F2)
  then show ?thesis using c2 by (rule that)
qed

text \<open>
  Claim C4, as amended. For a finder whose history capacity is at least 1, after a run
  of streaming calls over more frames than the capacity, the history has exactly as
  many entries as the capacity: they are the heatmaps of the most recent frames, in
  the order of arrival, each with the contents it had when its frame was processed.
\<close>

theorem stream_history_keeps_most_recent:
  assumes "find_cars_stream lib self st imgs = Inr fs"
    and "1 \<le> heatmap_history self"
    and "nat (heatmap_history self) < length imgs"
  shows "length (nlast_heatmaps (f_self (last fs))) = nat (heatmap_history self)
       \<and> nlast_heatmaps (f_self (last fs)) =
           drop (length fs - nat (heatmap_history self)) (map f_current_heatmap fs)
       \<and> map (\<lambda>a. heats (f_store (last fs)) ! a) (nlast_heatmaps (f_self (last fs))) =
           drop (length fs - nat (heatmap_history self))
                (map (\<lambda>g. heats (f_store g) ! f_current_heatmap g) fs)"
proof -
  let ?k = "nat (heatmap_history self)"
  have ne: "imgs \<noteq> []" using assms(3) by auto
  have len: "length fs = length imgs" using find_cars_stream_last[OF assms(1) ne] by simp
  have h: "nlast_heatmaps (f_self (last fs)) =
           drop (length (nlast_heatmaps self @ map f_current_heatmap fs) - ?k)
                (nlast_heatmaps self @ map f_current_heatmap fs)"
    using find_cars_stream_history[OF assms(1) ne assms(2)] by simp
  have k: "?k < length fs" using assms(3) len by simp
  then have "length (nlast_heatmaps self @ map f_current_heatmap fs) - ?k =
             length (nlast_heatmaps self) + (length fs - ?k)" by simp
  then have n: "nlast_heatmaps (f_self (last fs)) = drop (length fs - ?k) (map f_current_heatmap fs)"
    using h by (simp add: add.commute)
  have c: "map (\<lambda>a. heats (f_store (last fs)) ! a) (map f_current_heatmap fs) =
           map (\<lambda>g. heats (f_store g) ! f_current_heatmap g) fs"
    using find_cars_stream_contents[OF assms(1)] by (simp add: list_all_iff)
  have "map (\<lambda>a. heats (f_store (last fs)) ! a) (nlast_heatmaps (f_self (last fs))) =
        drop (length fs - ?k) (map (\<lambda>a. heats (f_store (last fs)) ! a) (map f_current_heatmap fs))"
    unfolding n by (simp only: drop_map)
  then have m: "map (\<lambda>a. heats (f_store (last fs)) ! a) (nlast_heatmaps (f_self (last fs))) =
        drop (length fs - ?k) (map (\<lambda>g. heats (f_store g) ! f_current_heatmap g) fs)"
    unfolding c .
  have "length (nlast_heatmaps (f_self (last fs))) = ?k" using n k by simp
  then show ?thesis using n m by simp
qed

theorem stream_history_keeps_most_recent_witness:
  "\<not> isl (find_cars_stream scene_lib (scene_finder ''cars'' 1 (1 / 10) (1 / 4)) scene_store [0, 0])
   \<and> heatmap_history (scene_finder ''cars'' 1 (1 / 10) (1 / 4)) = 1
   \<and> length (nlast_heatmaps (f_self (last (projr
         (find_cars_stream scene_lib (scene_finder ''cars'' 1 (1 / 10) (1 / 4)) scene_store [0, 0]))))) = 1
   \<and> nlast_heatmaps (f_self (last (projr
         (find_cars_stream scene_lib (scene_finder ''cars'' 1 (1 / 10) (1 / 4)) scene_store [0, 0])))) =
       [f_current_heatmap (last (projr
         (find_cars_stream scene_lib (scene_finder ''cars'' 1 (1 / 10) (1 / 4)) scene_store [0, 0])))]
   \<and> map (\<lambda>a. heats (f_store (last (projr
              (find_cars_stream scene_lib (scene_finder ''cars'' 1 (1 / 10) (1 / 4)) scene_store [0, 0])))) ! a)
         (nlast_heatmaps (f_self (last (projr
              (find_cars_stream scene_lib (scene_finder ''cars'' 1 (1 / 10) (1 / 4)) scene_store [0, 0]))))) =
       [scene_heat]"
proof -
  let ?self = "scene_finder ''cars'' 1 (1 / 10) (1 / 4)"
  obtain F1 F2 where r: "find_cars_stream scene_lib ?self scene_store [0, 0] = Inr [F1, F2]"
    and c2: "heats (f_store F2) ! f_current_heatmap F2 = scene_heat"
    by (rule scene_stream_two)
  have cap: "heatmap_history ?self = 1" by (simp add: scene_finder_fields)
  have h1: "1 \<le> heatmap_history ?self" by (simp add: cap)
  have h2: "nat (heatmap_history ?self) < length [0::nat, 0]" by (simp add: cap)
  note t = stream_history_keeps_most_recent[OF r h1 h2]
  have a: "length (nlast_heatmaps (f_self F2)) = 1" using t by (simp add: cap)
  have b: "nlast_heatmaps (f_self F2) = [f_current_heatmap F2]" using t by (simp add: cap)
  have c: "map (\<lambda>a. heats (f_store F2) ! a) (nlast_heatmaps (f_self F2)) = [scene_heat]"
    using t by (simp add: cap c2)
  show ?thesis unfolding r using cap a b c by simp
qed

text \<open>
  The claim as it was worded, for every configured capacity, fails for the capacity 0,
  which the constructor accepts: \<open>nlast_heatmaps[-0:]\<close> is the whole list, so nothing
  is discarded and after one frame the history has one entry.
\<close>

theorem stream_history_zero_capacity_counterexample:
  "\<not> isl (find_cars_stream scene_lib (scene_finder ''cars'' 0 (1 / 10) (1 / 4)) scene_store [0])
   \<and> heatmap_history (scene_finder ''cars'' 0 (1 / 10) (1 / 4)) = 0
   \<and> length (nlast_heatmaps (f_self (last (projr
         (find_cars_stream scene_lib (scene_finder ''cars'' 0 (1 / 10) (1 / 4)) scene_store [0]))))) = 1"
proof -
  let ?self = "scene_finder ''cars'' 0 (1 / 10) (1 / 4)"
  let ?s1 = "add_to_history ?self 0"
  define T where "T = zero_below scene_heat (heat_thresh_low ?s1) scene_heat"
  obtain F where F: "find_cars_frame scene_lib ?self scene_store 0 False = Inr F"
    and s1: "f_self F = ?s1"
    by (rule scene_finder_frame[where single=False and v="''cars''" and h=0 and lo="1 / 10"
              and hi="1 / 4" and ?self1.0="?s1" and T=T]) (simp_all add: T_def)
  have h: "(0::int) = 16 \<or> (0::int) = 1 \<or> (0::int) = 0" by simp
  have n: "nlast_heatmaps ?s1 = [0]"
    by (rule scene_add_to_history(1)[OF h])
  have r: "find_cars_stream scene_lib ?self scene_store [0] = Inr [F]"
    by (simp add: F)
  show ?thesis unfolding r by (simp add: s1 n scene_finder_fields)
qed

end
